theory Spec2Isabelle
  imports Main "HOL-Library.Word"
begin

unbundle bit_operations_syntax

section \<open>Values, bytes and errors\<close>

text \<open>
  The repository holds three Node.js clients of the Ouroboros node-to-node stack:
  \<^item> \<^verbatim>\<open>src/unnamed/part_001\<close> (\<^verbatim>\<open>chainsync-tip.cjs\<close>): sequential \<^verbatim>\<open>run()\<close> with \<^verbatim>\<open>muxFrame\<close> and a
    \<^verbatim>\<open>MuxReader\<close> that resolves waiters; names of its model end in \<open>_001\<close> where they clash;
  \<^item> \<^verbatim>\<open>src/unnamed/part_002\<close>: event driven \<^verbatim>\<open>connectAndFetchTip\<close> with \<^verbatim>\<open>packSegment\<close> and a
    \<^verbatim>\<open>MuxReader\<close> that calls \<^verbatim>\<open>onSegment\<close>; suffix \<open>_002\<close>;
  \<^item> \<^verbatim>\<open>src/lab/gemini-ouroboros-client.cjs\<close>: hand-built CBOR, \<^verbatim>\<open>createMuxFrame\<close> and a data
    handler on a global buffer; prefix \<open>gemini_\<close>.

  A \<^verbatim>\<open>Buffer\<close> is a list of bytes. A decoded CBOR item (and any other JavaScript value the
  clients look at) is a \<open>jsval\<close>; numbers are the integers. An object keeps its own
  properties in enumeration order, a \<^verbatim>\<open>Map\<close> its entries in insertion order.
\<close>

type_synonym byte = "8 word"
type_synonym bytes = "byte list"

datatype jsval =
    JUndefined
  | JNull
  | JBool bool
  | JNum int
  | JStr string
  | JBuf bytes
  | JArr "jsval list"
  | JMap "(jsval \<times> jsval) list"
  | JObj "(string \<times> jsval) list"

text \<open>\<^verbatim>\<open>a[i]\<close> on an array: \<^verbatim>\<open>undefined\<close> past the end.\<close>

definition idx :: "jsval list \<Rightarrow> nat \<Rightarrow> jsval" where
  "idx xs i = (if i < length xs then xs ! i else JUndefined)"

text \<open>
  Every \<^verbatim>\<open>throw\<close> of the three files, the rejections of the promises, and the exceptions
  Node raises in the modelled paths. Where the source builds the message from
  \<^verbatim>\<open>JSON.stringify(v)\<close> the error carries \<open>v\<close> itself.
\<close>

datatype error =
    MiniProtocolIdOutOfRange
  | PayloadTooLarge nat
  | ConnectTimeout
  | SocketError string
  | SocketClosed
  | FrameTimeout
  | BadHandshakeResponse
  | HandshakeRefused jsval
  | UnexpectedHandshakeTag jsval jsval
  | UnexpectedChainSync jsval
  | CborDecodeFailed int string
  | SessionTimeout
  | SocketEnded
  | RangeError
  | TypeError

section \<open>Mux codec\<close>

subsection \<open>32-bit big-endian words\<close>

text \<open>
  \<^verbatim>\<open>buf.writeUInt32BE(x >>> 0, off)\<close> and \<^verbatim>\<open>buf.readUInt32BE(off)\<close>. The bitwise operators of
  JavaScript work on the 32-bit two's complement image of a number (\<open>ToInt32\<close>), and
  \<^verbatim>\<open>>>> 0\<close> reads that image as unsigned: a \<open>32 word\<close>.
\<close>

definition ToInt32 :: "int \<Rightarrow> 32 word" where
  "ToInt32 n = word_of_int n"

definition u32be :: "32 word \<Rightarrow> bytes" where
  "u32be n = [ucast (drop_bit 24 n), ucast (drop_bit 16 n), ucast (drop_bit 8 n), ucast n]"

text \<open>Every call in the sources is guarded by \<^verbatim>\<open>buf.length >= 8\<close>, with \<open>off \<le> 4\<close>.\<close>

definition readUInt32BE :: "bytes \<Rightarrow> nat \<Rightarrow> 32 word" where
  "readUInt32BE b off =
     push_bit 24 (ucast (b ! off)) OR push_bit 16 (ucast (b ! (off + 1)))
       OR push_bit 8 (ucast (b ! (off + 2))) OR ucast (b ! (off + 3))"

subsection \<open>Encoders\<close>

text \<open>
  \<^verbatim>\<open>muxFrame\<close> (part_001, lines 55-72). The packed word is
  \<^verbatim>\<open>((mode & 1) << 31) | ((miniProtocolId & 0x7fff) << 16) | (payload.length & 0xffff)\<close>.
\<close>

definition pack_word :: "int \<Rightarrow> int \<Rightarrow> nat \<Rightarrow> 32 word" where
  "pack_word mode miniProtocolId len =
     push_bit 31 (ToInt32 mode AND 1) OR push_bit 16 (ToInt32 miniProtocolId AND 0x7fff)
       OR (ToInt32 (int len) AND 0xffff)"

definition muxFrame :: "int \<Rightarrow> int \<Rightarrow> bytes \<Rightarrow> error + bytes" where
  "muxFrame miniProtocolId mode payload =
     (if miniProtocolId < 0 \<or> miniProtocolId > 0x7fff then Inl MiniProtocolIdOutOfRange
      else if length payload > 0xffff then Inl (PayloadTooLarge (length payload))
      else
        let transmissionTime = 0;
            word0 = u32be transmissionTime;
            word1 = pack_word mode miniProtocolId (length payload);
            hdr = u32be word1
        in Inr (word0 @ hdr @ payload))"

text \<open>
  \<^verbatim>\<open>muxHeader\<close> and \<^verbatim>\<open>packSegment\<close> (part_002, lines 36-49). \<^verbatim>\<open>now32()\<close> is
  \<^verbatim>\<open>Date.now() >>> 0\<close>; the clock reading \<open>now\<close> is an input.
\<close>

definition muxHeader :: "int \<Rightarrow> int \<Rightarrow> int \<Rightarrow> nat \<Rightarrow> bytes" where
  "muxHeader now modeBit miniProtocolId len =
     u32be (ToInt32 now) @ u32be (pack_word modeBit miniProtocolId len)"

definition packSegment :: "int \<Rightarrow> int \<Rightarrow> int \<Rightarrow> bytes \<Rightarrow> error + bytes" where
  "packSegment now miniProtocolId modeBit payloadBuf =
     (if length payloadBuf > 0xffff then Inl (PayloadTooLarge (length payloadBuf))
      else
        let header = muxHeader now modeBit miniProtocolId (length payloadBuf)
        in Inr (header @ payloadBuf))"

text \<open>
  A socket: the buffers written to it so far, whether \<^verbatim>\<open>destroy()\<close> was called, and whether
  \<^verbatim>\<open>end()\<close> was. Node sends nothing for a \<^verbatim>\<open>write\<close> after either.
\<close>

record socket =
  written :: "bytes list"
  destroyed :: bool
  ended :: bool

definition socket0 :: socket where
  "socket0 = \<lparr>written = [], destroyed = False, ended = False\<rparr>"

definition socket_write :: "socket \<Rightarrow> bytes \<Rightarrow> socket" where
  "socket_write sock b =
     (if destroyed sock \<or> ended sock then sock else sock\<lparr>written := written sock @ [b]\<rparr>)"

text \<open>
  \<^verbatim>\<open>socket.write(muxFrame(...))\<close>: the argument is evaluated first, so a throwing encoder
  leaves the socket as it was.
\<close>

definition write_frame :: "socket \<Rightarrow> error + bytes \<Rightarrow> error + socket" where
  "write_frame sock frame =
     (case frame of Inl e \<Rightarrow> Inl e | Inr f \<Rightarrow> Inr (socket_write sock f))"

subsection \<open>Decoders\<close>

text \<open>
  The object handed to a waiter (part_001, line 111) or to \<^verbatim>\<open>onSegment\<close> (part_002, line 70,
  where the fields are called \<^verbatim>\<open>t\<close> and \<^verbatim>\<open>modeBit\<close>).
\<close>

record segment =
  transmissionTime :: "32 word"
  mode :: int
  miniProtocolId :: int
  payload :: bytes

text \<open>
  The three header fields, as both readers compute them:
  \<^verbatim>\<open>(w >>> 31) & 1\<close>, \<^verbatim>\<open>(w >>> 16) & 0x7fff\<close>, \<^verbatim>\<open>w & 0xffff\<close>.
\<close>

definition hdr_mode :: "32 word \<Rightarrow> int" where
  "hdr_mode w = uint (drop_bit 31 w AND 1)"

definition hdr_mpid :: "32 word \<Rightarrow> int" where
  "hdr_mpid w = uint (drop_bit 16 w AND 0x7fff)"

definition hdr_len :: "32 word \<Rightarrow> nat" where
  "hdr_len w = unat (w AND 0xffff)"

text \<open>
  \<^verbatim>\<open>MuxReader.push\<close> (part_002, lines 57-72): append the chunk, then loop. \<^verbatim>\<open>onSegment\<close> is the
  constructor's argument; it works on a state \<open>'s\<close> and may throw (\<open>Inl\<close>, with whatever
  the caller wants to know about the throw), which leaves the loop.
\<close>

function MuxReader_loop ::
  "(segment \<Rightarrow> 's \<Rightarrow> 'e + 's) \<Rightarrow> bytes \<Rightarrow> 's \<Rightarrow> bytes \<times> ('e + 's)" where
  "MuxReader_loop onSegment buf s =
     (if length buf < 8 then (buf, Inr s)
      else
        let t = readUInt32BE buf 0;
            w2 = readUInt32BE buf 4;
            len = hdr_len w2
        in if length buf < 8 + len then (buf, Inr s)
           else
             let pl = take len (drop 8 buf);
                 buf' = drop (8 + len) buf
             in (case onSegment \<lparr>transmissionTime = t, mode = hdr_mode w2,
                                   miniProtocolId = hdr_mpid w2, payload = pl\<rparr> s of
                   Inl e \<Rightarrow> (buf', Inl e)
                 | Inr s' \<Rightarrow> MuxReader_loop onSegment buf' s'))"
  by pat_completeness auto
termination
  by (relation "measure (\<lambda>(h, buf, s). length buf)") auto

declare MuxReader_loop.simps [simp del]

definition MuxReader_push ::
  "(segment \<Rightarrow> 's \<Rightarrow> 'e + 's) \<Rightarrow> bytes \<Rightarrow> 's \<Rightarrow> bytes \<Rightarrow> bytes \<times> ('e + 's)" where
  "MuxReader_push onSegment buf s chunk = MuxReader_loop onSegment (buf @ chunk) s"

text \<open>An \<^verbatim>\<open>onSegment\<close> that only records what it is given.\<close>

definition record_segment :: "segment \<Rightarrow> segment list \<Rightarrow> error + segment list" where
  "record_segment seg segs = Inr (segs @ [seg])"

text \<open>Feeding a list of chunks, one \<^verbatim>\<open>push\<close> each; a throw ends the process.\<close>

fun feed_002 ::
  "(segment \<Rightarrow> 's \<Rightarrow> 'e + 's) \<Rightarrow> bytes \<Rightarrow> 's \<Rightarrow> bytes list \<Rightarrow> bytes \<times> ('e + 's)" where
  "feed_002 onSegment buf s [] = (buf, Inr s)"
| "feed_002 onSegment buf s (chunk # chunks) =
     (case MuxReader_push onSegment buf s chunk of
        (buf', Inl e) \<Rightarrow> (buf', Inl e)
      | (buf', Inr s') \<Rightarrow> feed_002 onSegment buf' s' chunks)"

text \<open>
  The \<^verbatim>\<open>MuxReader\<close> of part_001 (lines 75-142). A waiter is the object pushed by
  \<^verbatim>\<open>readFrame\<close>: its filter, and the promise its \<^verbatim>\<open>resolve\<close> settles (a number names it).
  \<^verbatim>\<open>findIndex\<close> gives the first position whose element passes, \<open>None\<close> for \<open>-1\<close>;
  \<^verbatim>\<open>splice(i, 1)\<close> removes that position.
\<close>

record waiter =
  filterW :: "int \<Rightarrow> int \<Rightarrow> bool"
  promiseW :: nat

fun findIndex :: "('a \<Rightarrow> bool) \<Rightarrow> 'a list \<Rightarrow> nat option" where
  "findIndex P [] = None"
| "findIndex P (x # xs) = (if P x then Some 0 else map_option Suc (findIndex P xs))"

definition splice1 :: "'a list \<Rightarrow> nat \<Rightarrow> 'a list" where
  "splice1 xs i = take i xs @ drop (Suc i) xs"

text \<open>
  \<^verbatim>\<open>_pump\<close> (lines 92-117). The result lists, in order, every segment taken from the buffer
  with the promise it resolved, \<open>None\<close> when no waiter wanted it and it was dropped.
\<close>

function MuxReader_pump ::
  "waiter list \<Rightarrow> bytes \<Rightarrow> (segment \<times> nat option) list
     \<Rightarrow> waiter list \<times> bytes \<times> (segment \<times> nat option) list" where
  "MuxReader_pump waiters buf out =
     (if length buf < 8 then (waiters, buf, out)
      else
        let t = readUInt32BE buf 0;
            word1 = readUInt32BE buf 4;
            md = hdr_mode word1;
            mpid = hdr_mpid word1;
            len = hdr_len word1
        in if length buf < 8 + len then (waiters, buf, out)
           else
             let pl = take len (drop 8 buf);
                 buf' = drop (8 + len) buf;
                 seg = \<lparr>transmissionTime = t, mode = md, miniProtocolId = mpid, payload = pl\<rparr>
             in (case findIndex (\<lambda>w. filterW w mpid md) waiters of
                   Some waiterIndex \<Rightarrow>
                     MuxReader_pump (splice1 waiters waiterIndex) buf'
                       (out @ [(seg, Some (promiseW (waiters ! waiterIndex)))])
                 | None \<Rightarrow> MuxReader_pump waiters buf' (out @ [(seg, None)])))"
  by pat_completeness auto
termination
  by (relation "measure (\<lambda>(ws, buf, out). length buf)") auto

declare MuxReader_pump.simps [simp del]

text \<open>The \<^verbatim>\<open>'data'\<close> listener of the constructor (lines 80-83), and \<^verbatim>\<open>readFrame\<close> (lines 127-139).\<close>

definition on_data_001 ::
  "waiter list \<times> bytes \<times> (segment \<times> nat option) list \<Rightarrow> bytes
     \<Rightarrow> waiter list \<times> bytes \<times> (segment \<times> nat option) list" where
  "on_data_001 r d = (case r of (waiters, buf, out) \<Rightarrow> MuxReader_pump waiters (buf @ d) out)"

definition readFrame ::
  "waiter list \<times> bytes \<times> (segment \<times> nat option) list \<Rightarrow> waiter
     \<Rightarrow> waiter list \<times> bytes \<times> (segment \<times> nat option) list" where
  "readFrame r w = (case r of (waiters, buf, out) \<Rightarrow> MuxReader_pump (waiters @ [w]) buf out)"

definition feed_001 ::
  "waiter list \<Rightarrow> bytes \<Rightarrow> bytes list \<Rightarrow> waiter list \<times> bytes \<times> (segment \<times> nat option) list" where
  "feed_001 waiters buf chunks = foldl on_data_001 (waiters, buf, []) chunks"

text \<open>
  The lab client. \<^verbatim>\<open>createMuxFrame\<close> (lines 68-75): \<^verbatim>\<open>(Date.now() * 1000) & 0xFFFFFFFF\<close> is a
  signed 32-bit value, and \<^verbatim>\<open>writeUInt32BE\<close> and \<^verbatim>\<open>writeUInt16BE\<close> throw a range error
  for a value outside the unsigned range.
\<close>

definition u16be :: "16 word \<Rightarrow> bytes" where
  "u16be n = [ucast (drop_bit 8 n), ucast n]"

definition readUInt16BE :: "bytes \<Rightarrow> nat \<Rightarrow> 16 word" where
  "readUInt16BE b off = push_bit 8 (ucast (b ! off)) OR ucast (b ! (off + 1))"

definition createMuxFrame :: "int \<Rightarrow> int \<Rightarrow> bytes \<Rightarrow> error + bytes" where
  "createMuxFrame now protocolId pl =
     (let ts = sint (ToInt32 (now * 1000) AND 0xFFFFFFFF)
      in if ts < 0 then Inl RangeError
         else if protocolId < 0 \<or> protocolId > 0xffff then Inl RangeError
         else if length pl > 0xffff then Inl RangeError
         else Inr (u32be (word_of_int ts) @ u16be (word_of_int protocolId)
                     @ u16be (word_of_nat (length pl)) @ pl))"

text \<open>
  The loop of the \<^verbatim>\<open>'data'\<close> listener (lines 89-112). \<open>dispatch\<close> stands for the body of the
  \<^verbatim>\<open>try\<close> with its \<^verbatim>\<open>catch\<close>, which never throws.
\<close>

function gemini_loop :: "(int \<Rightarrow> bytes \<Rightarrow> 's \<Rightarrow> 's) \<Rightarrow> bytes \<Rightarrow> 's \<Rightarrow> bytes \<times> 's" where
  "gemini_loop dispatch buffer s =
     (if length buffer < 8 then (buffer, s)
      else
        let protocolId = uint (readUInt16BE buffer 4);
            payloadLen = unat (readUInt16BE buffer 6)
        in if length buffer < 8 + payloadLen then (buffer, s)
           else
             let pl = take payloadLen (drop 8 buffer);
                 buffer' = drop (8 + payloadLen) buffer
             in gemini_loop dispatch buffer' (dispatch protocolId pl s))"
  by pat_completeness auto
termination
  by (relation "measure (\<lambda>(h, buffer, s). length buffer)") auto

declare gemini_loop.simps [simp del]

definition gemini_on_data ::
  "(int \<Rightarrow> bytes \<Rightarrow> 's \<Rightarrow> 's) \<Rightarrow> bytes \<times> 's \<Rightarrow> bytes \<Rightarrow> bytes \<times> 's" where
  "gemini_on_data dispatch r chunk = (case r of (buffer, s) \<Rightarrow> gemini_loop dispatch (buffer @ chunk) s)"

definition gemini_feed :: "(int \<Rightarrow> bytes \<Rightarrow> 's \<Rightarrow> 's) \<Rightarrow> bytes \<Rightarrow> 's \<Rightarrow> bytes list \<Rightarrow> bytes \<times> 's" where
  "gemini_feed dispatch buffer s chunks = foldl (gemini_on_data dispatch) (buffer, s) chunks"

definition record_frame :: "int \<Rightarrow> bytes \<Rightarrow> (int \<times> bytes) list \<Rightarrow> (int \<times> bytes) list" where
  "record_frame protocolId pl frames = frames @ [(protocolId, pl)]"

text \<open>
  A buffer on which the loop of a reader stops at once: the header or the payload it
  announces is not complete (\<open>stalled\<close> for part_001 and part_002, \<open>gstalled\<close> for the
  lab client).
\<close>

definition stalled :: "bytes \<Rightarrow> bool" where
  "stalled buf = (length buf < 8 \<or> length buf < 8 + hdr_len (readUInt32BE buf 4))"

definition gstalled :: "bytes \<Rightarrow> bool" where
  "gstalled buf = (length buf < 8 \<or> length buf < 8 + unat (readUInt16BE buf 6))"

section \<open>Numbers and strings of JavaScript\<close>

text \<open>
  \<^verbatim>\<open>x >>> 0\<close> (\<open>ToUint32\<close>) on a decoded value: an integer is reduced modulo \<open>2^32\<close>,
  \<^verbatim>\<open>undefined\<close> and \<^verbatim>\<open>null\<close> give 0, a boolean 0 or 1. For a string, a buffer or a
  container JavaScript goes through \<open>ToPrimitive\<close> and parses the text; that conversion
  is the parameter \<open>tn\<close> (its result as an integer, 0 for \<^verbatim>\<open>NaN\<close>).
\<close>

definition ToUint32 :: "(jsval \<Rightarrow> int) \<Rightarrow> jsval \<Rightarrow> nat" where
  "ToUint32 tn v =
     (case v of
        JNum n \<Rightarrow> nat (n mod 2 ^ 32)
      | JBool b \<Rightarrow> (if b then 1 else 0)
      | JUndefined \<Rightarrow> 0
      | JNull \<Rightarrow> 0
      | _ \<Rightarrow> nat (tn v mod 2 ^ 32))"

text \<open>\<^verbatim>\<open>n.toString(radix)\<close> for a natural number, \<^verbatim>\<open>s.padStart(k, c)\<close>, \<^verbatim>\<open>parts.join(sep)\<close>.\<close>

definition digit_char :: "nat \<Rightarrow> char" where
  "digit_char d = ''0123456789abcdef'' ! d"

function toStringRadix :: "nat \<Rightarrow> nat \<Rightarrow> string" where
  "toStringRadix radix n =
     (if radix < 2 \<or> n < radix then [digit_char n]
      else toStringRadix radix (n div radix) @ [digit_char (n mod radix)])"
  by pat_completeness auto
termination
  by (relation "measure (\<lambda>(radix, n). n)") auto

declare toStringRadix.simps [simp del]

definition padStart :: "nat \<Rightarrow> char \<Rightarrow> string \<Rightarrow> string" where
  "padStart k c s = replicate (k - length s) c @ s"

fun join :: "string \<Rightarrow> string list \<Rightarrow> string" where
  "join sep [] = []"
| "join sep [x] = x"
| "join sep (x # y # ys) = x @ sep @ join sep (y # ys)"

text \<open>
  The values a \<^verbatim>\<open>for ... of\<close> or an array pattern walks over; \<open>None\<close> where JavaScript
  throws a \<^verbatim>\<open>TypeError\<close> because the value is not iterable. A string yields its
  characters, a buffer its bytes, a \<^verbatim>\<open>Map\<close> its entries as pairs.
\<close>

definition iterate :: "jsval \<Rightarrow> jsval list option" where
  "iterate v =
     (case v of
        JArr xs \<Rightarrow> Some xs
      | JStr s \<Rightarrow> Some (map (\<lambda>c. JStr [c]) s)
      | JBuf bs \<Rightarrow> Some (map (\<lambda>b. JNum (uint b)) bs)
      | JMap kvs \<Rightarrow> Some (map (\<lambda>(k, v). JArr [k, v]) kvs)
      | _ \<Rightarrow> None)"

text \<open>The values for which \<^verbatim>\<open>v || []\<close> takes the right operand.\<close>

definition falsy :: "jsval \<Rightarrow> bool" where
  "falsy v = (v = JUndefined \<or> v = JNull \<or> v = JBool False \<or> v = JNum 0 \<or> v = JStr [])"

section \<open>PeerSharing addresses\<close>

text \<open>
  The arrow function both clients map over \<^verbatim>\<open>addr.slice(1, 5)\<close>
  (part_001 line 275, part_002 line 100): \<^verbatim>\<open>(w >>> 0).toString(16).padStart(8, '0')\<close>.
\<close>

definition word_hex :: "(jsval \<Rightarrow> int) \<Rightarrow> jsval \<Rightarrow> string" where
  "word_hex tn w = padStart 8 (CHR ''0'') (toStringRadix 16 (ToUint32 tn w))"

text \<open>\<^verbatim>\<open>ipv4FromWord32\<close> (part_002, lines 75-83); part_001 has the same expression inline.\<close>

definition ipv4FromWord32 :: "nat \<Rightarrow> string" where
  "ipv4FromWord32 w =
     join ''.'' (map (toStringRadix 10)
       [(w div 2 ^ 24) mod 256, (w div 2 ^ 16) mod 256, (w div 2 ^ 8) mod 256, w mod 256])"

record peer =
  ip :: string
  port :: nat

text \<open>
  \<^verbatim>\<open>parsePeerAddresses\<close> (part_002, lines 85-107): the body of the loop for one element,
  then the loop. \<^verbatim>\<open>peerAddresses || []\<close> may still be something that cannot be iterated,
  and the \<^verbatim>\<open>for ... of\<close> then throws.
\<close>

definition parsePeerAddress :: "(jsval \<Rightarrow> int) \<Rightarrow> jsval \<Rightarrow> peer list" where
  "parsePeerAddress tn a =
     (case a of
        JArr xs \<Rightarrow>
          if length xs < 3 then []
          else if idx xs 0 = JNum 0 \<and> length xs = 3 then
            [\<lparr>ip = ipv4FromWord32 (ToUint32 tn (idx xs 1)), port = ToUint32 tn (idx xs 2)\<rparr>]
          else if idx xs 0 = JNum 1 \<and> length xs = 6 then
            [\<lparr>ip = join '':'' (map (word_hex tn) (take 4 (drop 1 xs))),
              port = ToUint32 tn (idx xs 5)\<rparr>]
          else []
      | _ \<Rightarrow> [])"

definition parsePeerAddresses :: "(jsval \<Rightarrow> int) \<Rightarrow> jsval \<Rightarrow> error + peer list" where
  "parsePeerAddresses tn peerAddresses =
     (case iterate (if falsy peerAddresses then JArr [] else peerAddresses) of
        None \<Rightarrow> Inl TypeError
      | Some as \<Rightarrow> Inr (concat (map (parsePeerAddress tn) as)))"

text \<open>The groups of a string between colons, as \<^verbatim>\<open>s.split(':')\<close> gives them.\<close>

fun colon_groups :: "string \<Rightarrow> string list" where
  "colon_groups [] = [[]]"
| "colon_groups (c # cs) =
     (if c = CHR '':'' then [] # colon_groups cs
      else (case colon_groups cs of [] \<Rightarrow> [[c]] | g # gs \<Rightarrow> (c # g) # gs))"

text \<open>For the examples: a conversion under which every text is \<^verbatim>\<open>NaN\<close>.\<close>

definition tn0 :: "jsval \<Rightarrow> int" where
  "tn0 v = 0"


section \<open>CBOR\<close>

text \<open>
  part_001 and part_002 encode and decode with the \<^verbatim>\<open>cbor-x\<close> library and the lab client
  decodes with \<^verbatim>\<open>cbor\<close>; the models take the library functions as parameters:
  \<open>enc\<close> for \<^verbatim>\<open>enc.encode\<close>, \<open>dec\<close> for \<^verbatim>\<open>dec.decode\<close> (\<open>Inl\<close> the text of the exception
  it throws).

  To run examples, and to read the bytes the lab client builds by hand, the definite-length
  fragment of RFC 8949 is written out here: unsigned and negative integers, byte and text
  strings, arrays, maps, and the simple values false, true, null, undefined. The decoder
  uses its first argument as fuel.
\<close>

definition be_uint :: "bytes \<Rightarrow> int" where
  "be_uint bs = foldl (\<lambda>a b. a * 256 + uint b) 0 bs"

definition cbor_arg :: "nat \<Rightarrow> nat \<Rightarrow> bytes \<Rightarrow> (nat \<times> int \<times> bytes) option" where
  "cbor_arg mt k rest =
     (if length rest < k then None else Some (mt, be_uint (take k rest), drop k rest))"

definition cbor_head :: "bytes \<Rightarrow> (nat \<times> int \<times> bytes) option" where
  "cbor_head bs =
     (case bs of
        [] \<Rightarrow> None
      | b # rest \<Rightarrow>
          let mt = unat b div 32; ai = unat b mod 32
          in if ai < 24 then Some (mt, int ai, rest)
             else if ai = 24 then cbor_arg mt 1 rest
             else if ai = 25 then cbor_arg mt 2 rest
             else if ai = 26 then cbor_arg mt 4 rest
             else if ai = 27 then cbor_arg mt 8 rest
             else None)"

fun pairs :: "'a list \<Rightarrow> ('a \<times> 'a) list" where
  "pairs (k # v # rest) = (k, v) # pairs rest"
| "pairs _ = []"

fun cbor_item :: "bytes \<Rightarrow> bytes \<Rightarrow> (jsval \<times> bytes) option"
  and cbor_items :: "bytes \<Rightarrow> nat \<Rightarrow> bytes \<Rightarrow> (jsval list \<times> bytes) option" where
  "cbor_item [] bs = None"
| "cbor_item (f # fuel) bs =
     (case cbor_head bs of
        None \<Rightarrow> None
      | Some (mt, n, rest) \<Rightarrow>
          if mt = 0 then Some (JNum n, rest)
          else if mt = 1 then Some (JNum (- 1 - n), rest)
          else if mt = 2 then
            (if int (length rest) < n then None
             else Some (JBuf (take (nat n) rest), drop (nat n) rest))
          else if mt = 3 then
            (if int (length rest) < n then None
             else Some (JStr (map (\<lambda>b. char_of (unat b)) (take (nat n) rest)), drop (nat n) rest))
          else if mt = 4 then
            (case cbor_items fuel (nat n) rest of
               None \<Rightarrow> None
             | Some (vs, r) \<Rightarrow> Some (JArr vs, r))
          else if mt = 5 then
            (case cbor_items fuel (2 * nat n) rest of
               None \<Rightarrow> None
             | Some (vs, r) \<Rightarrow> Some (JMap (pairs vs), r))
          else if mt = 7 then
            (if n = 20 then Some (JBool False, rest)
             else if n = 21 then Some (JBool True, rest)
             else if n = 22 then Some (JNull, rest)
             else if n = 23 then Some (JUndefined, rest)
             else None)
          else None)"
| "cbor_items fuel 0 bs = Some ([], bs)"
| "cbor_items fuel (Suc k) bs =
     (case cbor_item fuel bs of
        None \<Rightarrow> None
      | Some (v, r) \<Rightarrow>
          (case cbor_items fuel k r of
             None \<Rightarrow> None
           | Some (vs, r') \<Rightarrow> Some (v # vs, r')))"

definition cbor_decode :: "bytes \<Rightarrow> string + jsval" where
  "cbor_decode bs =
     (case cbor_item (0 # bs) bs of
        Some (v, []) \<Rightarrow> Inr v
      | _ \<Rightarrow> Inl ''not one well-formed item'')"

definition cbor_hd :: "nat \<Rightarrow> int \<Rightarrow> bytes" where
  "cbor_hd mt n =
     (if n < 24 then [word_of_int (32 * int mt + n)]
      else if n < 2 ^ 8 then [word_of_int (32 * int mt + 24), word_of_int n]
      else if n < 2 ^ 16 then word_of_int (32 * int mt + 25) # u16be (word_of_int n)
      else if n < 2 ^ 32 then word_of_int (32 * int mt + 26) # u32be (word_of_int n)
      else word_of_int (32 * int mt + 27) # u32be (word_of_int (n div 2 ^ 32))
             @ u32be (word_of_int n))"

definition cbor_text :: "string \<Rightarrow> bytes" where
  "cbor_text s = cbor_hd 3 (int (length s)) @ map (\<lambda>c. word_of_nat (of_char c)) s"

primrec cbor_encode :: "jsval \<Rightarrow> bytes"
  and cbor_encode_list :: "jsval list \<Rightarrow> bytes"
  and cbor_encode_entries :: "(jsval \<times> jsval) list \<Rightarrow> bytes"
  and cbor_encode_entry :: "jsval \<times> jsval \<Rightarrow> bytes"
  and cbor_encode_props :: "(string \<times> jsval) list \<Rightarrow> bytes"
  and cbor_encode_prop :: "string \<times> jsval \<Rightarrow> bytes" where
  "cbor_encode JUndefined = [0xF7]"
| "cbor_encode JNull = [0xF6]"
| "cbor_encode (JBool b) = [if b then 0xF5 else 0xF4]"
| "cbor_encode (JNum n) = (if 0 \<le> n then cbor_hd 0 n else cbor_hd 1 (- 1 - n))"
| "cbor_encode (JStr s) = cbor_text s"
| "cbor_encode (JBuf bs) = cbor_hd 2 (int (length bs)) @ bs"
| "cbor_encode (JArr xs) = cbor_hd 4 (int (length xs)) @ cbor_encode_list xs"
| "cbor_encode (JMap kvs) = cbor_hd 5 (int (length kvs)) @ cbor_encode_entries kvs"
| "cbor_encode (JObj kvs) = cbor_hd 5 (int (length kvs)) @ cbor_encode_props kvs"
| "cbor_encode_list [] = []"
| "cbor_encode_list (x # xs) = cbor_encode x @ cbor_encode_list xs"
| "cbor_encode_entries [] = []"
| "cbor_encode_entries (kv # kvs) = cbor_encode_entry kv @ cbor_encode_entries kvs"
| "cbor_encode_entry (k, v) = cbor_encode k @ cbor_encode v"
| "cbor_encode_props [] = []"
| "cbor_encode_props (kv # kvs) = cbor_encode_prop kv @ cbor_encode_props kvs"
| "cbor_encode_prop (k, v) = cbor_text k @ cbor_encode v"

text \<open>\<^verbatim>\<open>buf.toString('hex')\<close>, and \<^verbatim>\<open>decodeCbor\<close> of part_001 (lines 144-150).\<close>

definition toHex :: "bytes \<Rightarrow> string" where
  "toHex buf = concat (map (\<lambda>b. padStart 2 (CHR ''0'') (toStringRadix 16 (unat b))) buf)"

definition decodeCbor :: "(bytes \<Rightarrow> string + jsval) \<Rightarrow> bytes \<Rightarrow> jsval" where
  "decodeCbor dec buf =
     (case dec buf of
        Inr v \<Rightarrow> v
      | Inl e \<Rightarrow> JObj [(''_decodeError'', JStr e), (''_hex'', JStr (toHex buf))])"

section \<open>Handshake proposals\<close>

definition MP_HANDSHAKE :: int where "MP_HANDSHAKE = 0"
definition MP_CHAINSYNC :: int where "MP_CHAINSYNC = 2"
definition MP_PEERSHARE :: int where "MP_PEERSHARE = 10"

text \<open>
  The command line of part_001 (lines 25-37). \<^verbatim>\<open>parseInt\<close> may also give \<^verbatim>\<open>NaN\<close>, which
  \<^verbatim>\<open>>>> 0\<close> turns into 0; the model has the integers only.
\<close>

record config =
  HOST :: string
  PORT :: int
  NETWORK_MAGIC :: int
  WANT_PEER_SHARING :: bool

text \<open>
  \<^verbatim>\<open>handshakePropose\<close> (part_001, lines 170-182). The table is an object literal; its keys
  are the property names \<^verbatim>\<open>"14"\<close> and \<^verbatim>\<open>"15"\<close>, enumerated in ascending order.
\<close>

definition handshakePropose :: "config \<Rightarrow> jsval" where
  "handshakePropose cfg =
     (let diffusionMode = False;
          peerSharing = (if WANT_PEER_SHARING cfg then 1 else 0);
          query = False;
          vd = JArr [JNum (NETWORK_MAGIC cfg mod 2 ^ 32), JBool diffusionMode, JNum peerSharing,
                     JBool query];
          versionTable = JObj [(''14'', vd), (''15'', vd)]
      in JArr [JNum 0, versionTable])"

text \<open>The proposal of part_002 (lines 128-136): a \<^verbatim>\<open>Map\<close> with the keys 15 and 14.\<close>

definition MAINNET_MAGIC :: int where "MAINNET_MAGIC = 764824073"

definition mkVData :: "bool \<Rightarrow> bool \<Rightarrow> bool \<Rightarrow> jsval" where
  "mkVData peerSharing diffusionMode query =
     JArr [JNum MAINNET_MAGIC, JBool diffusionMode, JNum (if peerSharing then 1 else 0),
           JBool query]"

definition propose_002 :: jsval where
  "propose_002 =
     (let versionTable = JMap [(JNum 15, mkVData True False False),
                               (JNum 14, mkVData True False False)]
      in JArr [JNum 0, versionTable])"

text \<open>\<^verbatim>\<open>buildHandshakePayload\<close> of the lab client (lines 21-65), byte for byte.\<close>

definition v10Data :: bytes where
  "v10Data = [0x82] @ [0x1A, 0x2D, 0x96, 0x4A, 0x09] @ [0xF5]"

definition v13Data :: bytes where
  "v13Data = [0x84] @ [0x1A, 0x2D, 0x96, 0x4A, 0x09] @ [0xF5] @ [0x00] @ [0xF4]"

definition buildHandshakePayload :: bytes where
  "buildHandshakePayload =
     (let versionMapHeader = [0xA2];
          entryV10 = [0x0A] @ v10Data;
          entryV13 = [0x0D] @ v13Data
      in [0x82] @ [0x00] @ versionMapHeader @ entryV10 @ entryV13)"

text \<open>
  What the claims say of a proposal \<open>[0, table]\<close>. A version number is an integer key of the
  table: \<open>version_entry tbl v\<close> is the version data a \<^verbatim>\<open>Map\<close> holds under the number \<open>v\<close>.
  The property names of an object are texts, not numbers, so an object holds no entry for
  any version. \<open>version_data_of\<close> lists the version data a proposal carries, entry by entry,
  whatever the keys are. \<open>versionData\<close> is the tuple (networkMagic, diffusionMode = false,
  peerSharing, query = false).
\<close>

definition version_entry :: "jsval \<Rightarrow> nat \<Rightarrow> jsval option" where
  "version_entry tbl v =
     (case tbl of
        JMap kvs \<Rightarrow> map_of kvs (JNum (int v))
      | _ \<Rightarrow> None)"

definition proposed :: "jsval \<Rightarrow> nat \<Rightarrow> jsval option" where
  "proposed msg v =
     (case msg of
        JArr [JNum tag, tbl] \<Rightarrow> (if tag = 0 then version_entry tbl v else None)
      | _ \<Rightarrow> None)"

definition table_values :: "jsval \<Rightarrow> jsval list" where
  "table_values tbl =
     (case tbl of
        JMap kvs \<Rightarrow> map snd kvs
      | JObj props \<Rightarrow> map snd props
      | _ \<Rightarrow> [])"

definition version_data_of :: "jsval \<Rightarrow> jsval list" where
  "version_data_of msg =
     (case msg of
        JArr [JNum tag, tbl] \<Rightarrow> (if tag = 0 then table_values tbl else [])
      | _ \<Rightarrow> [])"

definition versionData :: "int \<Rightarrow> bool \<Rightarrow> jsval" where
  "versionData magic wantPeerSharing =
     JArr [JNum magic, JBool False, JNum (if wantPeerSharing then 1 else 0), JBool False]"


section \<open>The sequential client (part_001)\<close>

text \<open>
  \<^verbatim>\<open>run()\<close> (lines 184-298) awaits four promises in turn: the connection, and one
  \<^verbatim>\<open>readFrame\<close> each for the handshake, ChainSync and PeerSharing replies. What each
  settles to is the input \<open>replies\<close>: \<open>Inl\<close> a rejection (timeout, socket closed or
  failed), \<open>Inr\<close> the segment the reader resolved the waiter with.
\<close>

record replies =
  connectR :: "error option"
  hsResp :: "error + segment"
  csResp :: "error + segment"
  psResp :: "error + segment"

datatype peer_001 = Peer string jsval | Raw jsval

text \<open>
  The function mapped over \<^verbatim>\<open>psObj[1]\<close> (lines 260-281). It does not test the length of an
  entry, keeps the port as decoded, and keeps what it does not recognise.
\<close>

definition peer_of_addr :: "(jsval \<Rightarrow> int) \<Rightarrow> jsval \<Rightarrow> peer_001" where
  "peer_of_addr tn addr =
     (case addr of
        JArr xs \<Rightarrow>
          if idx xs 0 = JNum 0 then Peer (ipv4FromWord32 (ToUint32 tn (idx xs 1))) (idx xs 2)
          else if idx xs 0 = JNum 1 then
            Peer (join '':'' (map (word_hex tn) (take 4 (drop 1 xs)))) (idx xs 5)
          else Raw addr
      | _ \<Rightarrow> Raw addr)"

record output_001 =
  peer_host :: string
  peer_port :: int
  version :: jsval
  versionDataOut :: jsval
  tipDecoded :: jsval
  tipCborHex :: string
  discoveredPeers :: "peer_001 list"

text \<open>Lines 234-241: the tip of a ChainSync reply, \<open>None\<close> where the code throws.\<close>

definition tip_of_001 :: "jsval \<Rightarrow> jsval option" where
  "tip_of_001 csObj =
     (case csObj of
        JArr xs \<Rightarrow>
          if idx xs 0 = JNum 6 then Some (idx xs 1)
          else if idx xs 0 = JNum 5 then Some (idx xs 2)
          else None
      | _ \<Rightarrow> None)"

text \<open>
  Lines 249-286, the optional PeerSharing exchange; everything thrown inside is caught
  and ignored.
\<close>

definition peer_sharing_001 ::
  "config \<Rightarrow> (jsval \<Rightarrow> bytes) \<Rightarrow> (bytes \<Rightarrow> string + jsval) \<Rightarrow> (jsval \<Rightarrow> int)
     \<Rightarrow> error + segment \<Rightarrow> socket \<Rightarrow> socket \<times> peer_001 list" where
  "peer_sharing_001 cfg enc dec tn ps s =
     (if \<not> WANT_PEER_SHARING cfg then (s, [])
      else
        let reqN = 25
        in (case write_frame s (muxFrame MP_PEERSHARE 0 (enc (JArr [JNum 0, JNum reqN]))) of
              Inl e \<Rightarrow> (s, [])
            | Inr s' \<Rightarrow>
                (case ps of
                   Inl e \<Rightarrow> (s', [])
                 | Inr psR \<Rightarrow>
                     (case decodeCbor dec (payload psR) of
                        JArr xs \<Rightarrow>
                          (if idx xs 0 = JNum 1 then
                             (case idx xs 1 of
                                JArr addrs \<Rightarrow> (s', map (peer_of_addr tn) addrs)
                              | _ \<Rightarrow> (s', []))
                           else (s', []))
                      | _ \<Rightarrow> (s', [])))))"

text \<open>Lines 219-298: what follows an accepted handshake, \<open>xs\<close> being the accept message.\<close>

definition after_handshake_001 ::
  "config \<Rightarrow> (jsval \<Rightarrow> bytes) \<Rightarrow> (bytes \<Rightarrow> string + jsval) \<Rightarrow> (jsval \<Rightarrow> int)
     \<Rightarrow> replies \<Rightarrow> socket \<Rightarrow> jsval list \<Rightarrow> socket \<times> (error + output_001)" where
  "after_handshake_001 cfg enc dec tn r s1 xs =
     (let negotiatedVersion = idx xs 1;
          negotiatedData = idx xs 2;
          findIntersect = JArr [JNum 4, JArr []]
      in (case write_frame s1 (muxFrame MP_CHAINSYNC 0 (enc findIntersect)) of
            Inl e \<Rightarrow> (s1, Inl e)
          | Inr s2 \<Rightarrow>
              (case csResp r of
                 Inl e \<Rightarrow> (s2, Inl e)
               | Inr cs \<Rightarrow>
                   let csObj = decodeCbor dec (payload cs)
                   in (case tip_of_001 csObj of
                         None \<Rightarrow> (s2, Inl (UnexpectedChainSync csObj))
                       | Some tip \<Rightarrow>
                           (case peer_sharing_001 cfg enc dec tn (psResp r) s2 of
                              (s3, peers) \<Rightarrow>
                                (s3\<lparr>destroyed := True\<rparr>,
                                 Inr \<lparr>peer_host = HOST cfg, peer_port = PORT cfg,
                                      version = negotiatedVersion,
                                      versionDataOut = negotiatedData,
                                      tipDecoded = tip, tipCborHex = toHex (enc tip),
                                      discoveredPeers = peers\<rparr>))))))"

text \<open>
  The whole of \<^verbatim>\<open>run()\<close>: the socket as it is left, and the value the promise of \<^verbatim>\<open>run()\<close>
  settles to. \<^verbatim>\<open>run().catch\<close> (lines 300-303) prints a rejection and exits with status 1;
  otherwise the process ends by itself, with status 0.
\<close>

definition run_001 ::
  "config \<Rightarrow> (jsval \<Rightarrow> bytes) \<Rightarrow> (bytes \<Rightarrow> string + jsval) \<Rightarrow> (jsval \<Rightarrow> int)
     \<Rightarrow> replies \<Rightarrow> socket \<times> (error + output_001)" where
  "run_001 cfg enc dec tn r =
     (case connectR r of
        Some e \<Rightarrow> (socket0, Inl e)
      | None \<Rightarrow>
          let hsMsg = handshakePropose cfg;
              hsPayload = enc hsMsg
          in (case write_frame socket0 (muxFrame MP_HANDSHAKE 0 hsPayload) of
                Inl e \<Rightarrow> (socket0, Inl e)
              | Inr s1 \<Rightarrow>
                  (case hsResp r of
                     Inl e \<Rightarrow> (s1, Inl e)
                   | Inr hs \<Rightarrow>
                       let hsObj = decodeCbor dec (payload hs)
                       in (case hsObj of
                             JArr xs \<Rightarrow>
                               if length xs < 1 then (s1, Inl BadHandshakeResponse)
                               else if idx xs 0 = JNum 2 then (s1, Inl (HandshakeRefused hsObj))
                               else if idx xs 0 \<noteq> JNum 1 then
                                 (s1, Inl (UnexpectedHandshakeTag (idx xs 0) hsObj))
                               else after_handshake_001 cfg enc dec tn r s1 xs
                           | _ \<Rightarrow> (s1, Inl BadHandshakeResponse)))))"

definition exit_code_001 :: "socket \<times> (error + output_001) \<Rightarrow> nat" where
  "exit_code_001 res = (case snd res of Inl e \<Rightarrow> 1 | Inr out \<Rightarrow> 0)"

text \<open>
  The filters \<^verbatim>\<open>run()\<close> gives to \<^verbatim>\<open>readFrame\<close> (lines 207, 231, 256); the promises are
  numbered in the order of the awaits.
\<close>

definition hs_waiter :: waiter where
  "hs_waiter = \<lparr>filterW = (\<lambda>mp md. mp = MP_HANDSHAKE \<and> md = 1), promiseW = 0\<rparr>"

definition cs_waiter :: waiter where
  "cs_waiter = \<lparr>filterW = (\<lambda>mp md. mp = MP_CHAINSYNC \<and> md = 1), promiseW = 1\<rparr>"

definition ps_waiter :: waiter where
  "ps_waiter = \<lparr>filterW = (\<lambda>mp md. mp = MP_PEERSHARE \<and> md = 1), promiseW = 2\<rparr>"

text \<open>
  How \<^verbatim>\<open>run()\<close> drives the reader. It awaits one \<^verbatim>\<open>readFrame\<close> at a time, and the code after
  an \<^verbatim>\<open>await\<close> runs only when the \<^verbatim>\<open>'data'\<close> listener that resolved the promise has returned,
  that is after \<^verbatim>\<open>_pump\<close> has taken every whole segment of that chunk out of the buffer.
  \<open>await_001 w r chunks\<close> calls \<^verbatim>\<open>readFrame\<close> with the waiter \<open>w\<close> on the reader \<open>r\<close> and lets the
  chunks arrive, one \<^verbatim>\<open>'data'\<close> event each, until the promise of \<open>w\<close> is resolved. It gives
  what the promise settles to, the reader as it is then, and the chunks still to come.
  When no chunk is left the timer of \<^verbatim>\<open>readFrame\<close> fires (lines 121-125) and rejects; the
  waiter stays in the list, because line 122 looks for the promise's own \<^verbatim>\<open>resolve\<close> and
  the list holds the function wrapped around it.
\<close>

type_synonym reader_001 = "waiter list \<times> bytes \<times> (segment \<times> nat option) list"

definition resolved_with :: "nat \<Rightarrow> (segment \<times> nat option) list \<Rightarrow> segment option" where
  "resolved_with p out = map_option fst (find (\<lambda>e. snd e = Some p) out)"

fun await_data ::
  "nat \<Rightarrow> reader_001 \<Rightarrow> bytes list \<Rightarrow> (error + segment) \<times> reader_001 \<times> bytes list" where
  "await_data p r [] = (Inl FrameTimeout, r, [])"
| "await_data p r (d # ds) =
     (let r' = on_data_001 r d
      in case resolved_with p (snd (snd r')) of
           Some sg \<Rightarrow> (Inr sg, r', ds)
         | None \<Rightarrow> await_data p r' ds)"

definition await_001 ::
  "waiter \<Rightarrow> reader_001 \<Rightarrow> bytes list \<Rightarrow> (error + segment) \<times> reader_001 \<times> bytes list" where
  "await_001 w r chunks =
     (let r' = readFrame r w
      in case resolved_with (promiseW w) (snd (snd r')) of
           Some sg \<Rightarrow> (Inr sg, r', chunks)
         | None \<Rightarrow> await_data (promiseW w) r' chunks)"

text \<open>
  The replies of a run of \<^verbatim>\<open>run()\<close> whose connection succeeds and whose socket then
  delivers the given chunks and nothing more before the timers fire: the three awaits of
  lines 207, 231 and 256 in turn, on a reader that starts empty (line 199). \<^verbatim>\<open>run()\<close>
  reaches the second await only after an accept and the third only after a ChainSync
  reply and when peer sharing is wanted; \<open>run_001\<close> reads no later reply otherwise.
\<close>

definition replies_of_chunks :: "bytes list \<Rightarrow> replies" where
  "replies_of_chunks chunks =
     (case await_001 hs_waiter ([], [], []) chunks of
        (hs, r1, ds1) \<Rightarrow>
          (case await_001 cs_waiter r1 ds1 of
             (cs, r2, ds2) \<Rightarrow>
               (case await_001 ps_waiter r2 ds2 of
                  (ps, r3, ds3) \<Rightarrow>
                    \<lparr>connectR = None, hsResp = hs, csResp = cs, psResp = ps\<rparr>)))"

text \<open>The mini-protocol id in the header of a written frame.\<close>

definition frame_mpid :: "bytes \<Rightarrow> int" where
  "frame_mpid f = hdr_mpid (readUInt32BE f 4)"

section \<open>The event-driven client (part_002)\<close>

record state_002 =
  handshakeDone :: bool
  negotiatedVersion :: jsval
  peers :: "peer list"
  gotTip :: bool

record result_002 =
  r_host :: string
  r_port :: int
  r_negotiatedVersion :: jsval
  peersDiscovered :: "peer list"
  tip :: jsval
  tipRaw :: jsval

datatype 'a promise = Pending | Resolved 'a | Rejected error

definition resolve :: "'a promise \<Rightarrow> 'a \<Rightarrow> 'a promise" where
  "resolve p v = (case p of Pending \<Rightarrow> Resolved v | _ \<Rightarrow> p)"

definition reject :: "'a promise \<Rightarrow> error \<Rightarrow> 'a promise" where
  "reject p e = (case p of Pending \<Rightarrow> Rejected e | _ \<Rightarrow> p)"

text \<open>
  Everything \<^verbatim>\<open>connectAndFetchTip\<close> (lines 122-244) holds: \<^verbatim>\<open>state\<close>, the socket, the promise
  it returned, whether the 15 s timer is still armed, and how often \<^verbatim>\<open>Date.now()\<close> was
  called (\<open>clk n\<close> is the reading of call \<open>n\<close>).
\<close>

record client_002 =
  state :: state_002
  sock :: socket
  settled :: "result_002 promise"
  timer :: bool
  ticks :: nat

definition init_002 :: client_002 where
  "init_002 =
     \<lparr>state = \<lparr>handshakeDone = False, negotiatedVersion = JNull, peers = [], gotTip = False\<rparr>,
      sock = socket0, settled = Pending, timer = True, ticks = 0\<rparr>"

text \<open>\<^verbatim>\<open>kill\<close> (lines 152-155); every call in the file passes an error.\<close>

definition kill :: "error \<Rightarrow> client_002 \<Rightarrow> client_002" where
  "kill err c = c\<lparr>sock := (sock c)\<lparr>destroyed := True\<rparr>, settled := reject (settled c) err\<rparr>"

text \<open>\<^verbatim>\<open>prettyTip\<close> (lines 109-120).\<close>

definition prettyTip :: "jsval \<Rightarrow> jsval" where
  "prettyTip t =
     (case t of
        JArr [JNum slot, JBuf hash, JNum blockNo] \<Rightarrow>
          JObj [(''slot'', JNum slot), (''hashHex'', JStr (toHex hash)), (''blockNo'', JNum blockNo)]
      | _ \<Rightarrow> t)"

text \<open>Line 215: \<^verbatim>\<open>(msg[0] === 5) ? msg[1] : msg[2]\<close>.\<close>

definition tip_of_002 :: "jsval list \<Rightarrow> jsval" where
  "tip_of_002 msg = (if idx msg 0 = JNum 5 then idx msg 1 else idx msg 2)"

text \<open>
  \<^verbatim>\<open>socket.write(packSegment(mp, 0, Buffer.from(enc.encode(x))))\<close>. \<^verbatim>\<open>packSegment\<close> reads the
  clock only after its length test. A throw carries the client as it is then.
\<close>

definition write_002 ::
  "(nat \<Rightarrow> int) \<Rightarrow> int \<Rightarrow> bytes \<Rightarrow> client_002 \<Rightarrow> (error \<times> client_002) + client_002" where
  "write_002 clk mp pl c =
     (case packSegment (clk (ticks c)) mp 0 pl of
        Inl e \<Rightarrow> Inl (e, c)
      | Inr f \<Rightarrow> Inr (c\<lparr>sock := socket_write (sock c) f, ticks := Suc (ticks c)\<rparr>))"

text \<open>The callback given to \<^verbatim>\<open>MuxReader\<close> (lines 161-233).\<close>

definition onSegment_002 ::
  "(nat \<Rightarrow> int) \<Rightarrow> (jsval \<Rightarrow> bytes) \<Rightarrow> (bytes \<Rightarrow> string + jsval) \<Rightarrow> (jsval \<Rightarrow> int)
     \<Rightarrow> string \<Rightarrow> int \<Rightarrow> segment \<Rightarrow> client_002 \<Rightarrow> (error \<times> client_002) + client_002" where
  "onSegment_002 clk enc dec tn host prt seg c =
     (case dec (payload seg) of
        Inl m \<Rightarrow> Inr (kill (CborDecodeFailed (miniProtocolId seg) m) c)
      | Inr msg \<Rightarrow>
          if miniProtocolId seg = MP_HANDSHAKE then
            (case msg of
               JArr xs \<Rightarrow>
                 if length xs < 1 then Inr c
                 else if idx xs 0 = JNum 1 then
                   (let c1 = c\<lparr>state := (state c)\<lparr>handshakeDone := True,
                                                   negotiatedVersion := idx xs 1\<rparr>\<rparr>;
                        wantPeers = 8;
                        psReq = JArr [JNum 0, JNum wantPeers];
                        findIntersect = JArr [JNum 4, JArr []]
                    in (case write_002 clk MP_PEERSHARE (enc psReq) c1 of
                          Inl ec \<Rightarrow> Inl ec
                        | Inr c2 \<Rightarrow> write_002 clk MP_CHAINSYNC (enc findIntersect) c2))
                 else if idx xs 0 = JNum 2 then Inr (kill (HandshakeRefused msg) c)
                 else Inr c
             | _ \<Rightarrow> Inr c)
          else if miniProtocolId seg = MP_PEERSHARE then
            (case msg of
               JArr xs \<Rightarrow>
                 if idx xs 0 = JNum 1 then
                   (case parsePeerAddresses tn (idx xs 1) of
                      Inl e \<Rightarrow> Inl (e, c)
                    | Inr ps \<Rightarrow> Inr (c\<lparr>state := (state c)\<lparr>peers := peers (state c) @ ps\<rparr>\<rparr>))
                 else Inr c
             | _ \<Rightarrow> Inr c)
          else if miniProtocolId seg = MP_CHAINSYNC then
            (case msg of
               JArr xs \<Rightarrow>
                 if idx xs 0 = JNum 5 \<or> idx xs 0 = JNum 6 then
                   (let t = tip_of_002 xs;
                        c1 = c\<lparr>state := (state c)\<lparr>gotTip := True\<rparr>, timer := False,
                               sock := (sock c)\<lparr>ended := True\<rparr>\<rparr>
                    in Inr (c1\<lparr>settled := resolve (settled c1)
                              \<lparr>r_host = host, r_port = prt,
                               r_negotiatedVersion = negotiatedVersion (state c1),
                               peersDiscovered = peers (state c1),
                               tip = prettyTip t, tipRaw = t\<rparr>\<rparr>))
                 else Inr c
             | _ \<Rightarrow> Inr c)
          else Inr c)"

text \<open>
  What Node delivers: the connection callback (lines 124-141), \<^verbatim>\<open>'data'\<close>, \<^verbatim>\<open>'error'\<close>,
  \<^verbatim>\<open>'end'\<close> (lines 235-242) and the 15 s timer (lines 157-159). The state of a run is the
  reader's buffer with the client, or with the exception that escaped a callback and the
  client at that moment. Once the promise is settled or an exception escaped, the process
  exits (lines 256-270) and nothing more is delivered.
\<close>

datatype event = Connect | Data bytes | SockError error | SockEnd | Timeout

type_synonym run_002 = "bytes \<times> ((error \<times> client_002) + client_002)"

definition step_002 ::
  "(nat \<Rightarrow> int) \<Rightarrow> (jsval \<Rightarrow> bytes) \<Rightarrow> (bytes \<Rightarrow> string + jsval) \<Rightarrow> (jsval \<Rightarrow> int)
     \<Rightarrow> string \<Rightarrow> int \<Rightarrow> run_002 \<Rightarrow> event \<Rightarrow> run_002" where
  "step_002 clk enc dec tn host prt st ev =
     (case st of
        (buf, Inl ec) \<Rightarrow> st
      | (buf, Inr c) \<Rightarrow>
          if settled c \<noteq> Pending then st
          else
            (case ev of
               Connect \<Rightarrow> (buf, write_002 clk MP_HANDSHAKE (enc propose_002) c)
             | Data chunk \<Rightarrow> MuxReader_push (onSegment_002 clk enc dec tn host prt) buf c chunk
             | SockError e \<Rightarrow> (buf, Inr (kill e c))
             | SockEnd \<Rightarrow>
                 if \<not> gotTip (state c) then (buf, Inr (kill SocketEnded (c\<lparr>timer := False\<rparr>)))
                 else st
             | Timeout \<Rightarrow> if timer c then (buf, Inr (kill SessionTimeout c)) else st))"

definition run_from_002 ::
  "(nat \<Rightarrow> int) \<Rightarrow> (jsval \<Rightarrow> bytes) \<Rightarrow> (bytes \<Rightarrow> string + jsval) \<Rightarrow> (jsval \<Rightarrow> int)
     \<Rightarrow> string \<Rightarrow> int \<Rightarrow> run_002 \<Rightarrow> event list \<Rightarrow> run_002" where
  "run_from_002 clk enc dec tn host prt st evs = foldl (step_002 clk enc dec tn host prt) st evs"

definition connectAndFetchTip ::
  "(nat \<Rightarrow> int) \<Rightarrow> (jsval \<Rightarrow> bytes) \<Rightarrow> (bytes \<Rightarrow> string + jsval) \<Rightarrow> (jsval \<Rightarrow> int)
     \<Rightarrow> string \<Rightarrow> int \<Rightarrow> event list \<Rightarrow> run_002" where
  "connectAndFetchTip clk enc dec tn host prt evs =
     run_from_002 clk enc dec tn host prt ([], Inr init_002) evs"

definition client_of :: "run_002 \<Rightarrow> client_002" where
  "client_of st = (case snd st of Inl ec \<Rightarrow> snd ec | Inr c \<Rightarrow> c)"

text \<open>The exit status (lines 265 and 269; 1 for an uncaught exception), \<open>None\<close> while running.\<close>

definition exit_code_002 :: "run_002 \<Rightarrow> nat option" where
  "exit_code_002 st =
     (case snd st of
        Inl ec \<Rightarrow> Some 1
      | Inr c \<Rightarrow>
          (case settled c of
             Pending \<Rightarrow> None
           | Resolved r \<Rightarrow> Some 0
           | Rejected e \<Rightarrow> Some 1))"

text \<open>
  For the invariants: whether \<^verbatim>\<open>run()\<close> got a handshake reply with tag 1, and, for part_002,
  that only handshake frames were written unless \<^verbatim>\<open>state.handshakeDone\<close> is set.
\<close>

definition accepted_001 :: "(bytes \<Rightarrow> string + jsval) \<Rightarrow> replies \<Rightarrow> bool" where
  "accepted_001 dec r =
     (case hsResp r of
        Inl e \<Rightarrow> False
      | Inr hs \<Rightarrow> (case decodeCbor dec (payload hs) of JArr xs \<Rightarrow> idx xs 0 = JNum 1 | _ \<Rightarrow> False))"

definition quiet :: "client_002 \<Rightarrow> bool" where
  "quiet c = (handshakeDone (state c) \<or> list_all (\<lambda>f. frame_mpid f = 0) (written (sock c)))"


text \<open>A segment the reader of part_001 dropped, or gave to a waiter for handshake replies.\<close>

definition hs_only :: "(segment \<times> nat option) \<Rightarrow> bool" where
  "hs_only d = (snd d = None \<or> (miniProtocolId (fst d) = MP_HANDSHAKE \<and> mode (fst d) = 1))"





section \<open>The lab client (gemini-ouroboros-client.cjs)\<close>

text \<open>
  \<^verbatim>\<open>x[i]\<close> on any decoded value, \<open>None\<close> where JavaScript throws a \<^verbatim>\<open>TypeError\<close>
  (\<^verbatim>\<open>undefined\<close> and \<^verbatim>\<open>null\<close> have no properties), \<open>js_prop\<close> for a value already
  known to have properties; and \<^verbatim>\<open>x[x.length - 1]\<close>. For an object, a property named
  \<^verbatim>\<open>length\<close> is looked at only when it holds a positive integer.
\<close>

definition js_get :: "jsval \<Rightarrow> nat \<Rightarrow> jsval option" where
  "js_get x i =
     (case x of
        JUndefined \<Rightarrow> None
      | JNull \<Rightarrow> None
      | JArr xs \<Rightarrow> Some (idx xs i)
      | JStr s \<Rightarrow> Some (if i < length s then JStr [s ! i] else JUndefined)
      | JBuf bs \<Rightarrow> Some (if i < length bs then JNum (uint (bs ! i)) else JUndefined)
      | JObj props \<Rightarrow>
          Some (case map_of props (toStringRadix 10 i) of None \<Rightarrow> JUndefined | Some v \<Rightarrow> v)
      | _ \<Rightarrow> Some JUndefined)"

definition js_prop :: "jsval \<Rightarrow> nat \<Rightarrow> jsval" where
  "js_prop x i = (case js_get x i of None \<Rightarrow> JUndefined | Some v \<Rightarrow> v)"

definition js_last :: "jsval \<Rightarrow> jsval option" where
  "js_last x =
     (case x of
        JUndefined \<Rightarrow> None
      | JNull \<Rightarrow> None
      | JArr xs \<Rightarrow> Some (if xs = [] then JUndefined else last xs)
      | JStr s \<Rightarrow> Some (if s = [] then JUndefined else JStr [last s])
      | JBuf bs \<Rightarrow> Some (if bs = [] then JUndefined else JNum (uint (last bs)))
      | JObj props \<Rightarrow>
          (case map_of props ''length'' of
             Some (JNum n) \<Rightarrow> if 1 \<le> n then js_get x (nat (n - 1)) else Some JUndefined
           | _ \<Rightarrow> Some JUndefined)
      | _ \<Rightarrow> Some JUndefined)"

text \<open>
  A line on the console: the fixed text, and the value printed after it if any.
  The client: its socket, its console, and the number of \<^verbatim>\<open>Date.now()\<close> calls so far;
  \<open>gcrashed\<close> once an exception escaped a callback.
\<close>

datatype log_entry = Log string | LogV string jsval

record gemini_state =
  gsock :: socket
  glog :: "log_entry list"
  gticks :: nat
  gcrashed :: bool

definition gemini_init :: gemini_state where
  "gemini_init = \<lparr>gsock = socket0, glog = [], gticks = 0, gcrashed = False\<rparr>"

definition glogs :: "log_entry list \<Rightarrow> gemini_state \<Rightarrow> gemini_state" where
  "glogs ls g = g\<lparr>glog := glog g @ ls\<rparr>"

text \<open>
  \<^verbatim>\<open>socket.write(createMuxFrame(id, payload))\<close>: the clock is read first; \<open>True\<close> with the
  state when \<^verbatim>\<open>createMuxFrame\<close> throws.
\<close>

definition gemini_write ::
  "(nat \<Rightarrow> int) \<Rightarrow> int \<Rightarrow> bytes \<Rightarrow> gemini_state \<Rightarrow> bool \<times> gemini_state" where
  "gemini_write clk protocolId pl g =
     (let g' = g\<lparr>gticks := Suc (gticks g)\<rparr>
      in case createMuxFrame (clk (gticks g)) protocolId pl of
           Inl e \<Rightarrow> (True, g')
         | Inr f \<Rightarrow> (False, g'\<lparr>gsock := socket_write (gsock g') f\<rparr>))"

text \<open>
  \<^verbatim>\<open>handleHandshake\<close> (lines 114-132) and \<^verbatim>\<open>handleChainSync\<close> (lines 134-154). The result
  says whether the handler threw, and gives the state as it is then. In
  \<^verbatim>\<open>handleChainSync\<close> the two array patterns throw on a value that cannot be iterated, and
  \<^verbatim>\<open>hash.toString('hex')\<close> throws when \<^verbatim>\<open>hash\<close> is \<^verbatim>\<open>undefined\<close>, \<^verbatim>\<open>null\<close> or a number (for
  which \<^verbatim>\<open>'hex'\<close> is not a radix), after the lines before it were printed.
\<close>

definition handleHandshake ::
  "(nat \<Rightarrow> int) \<Rightarrow> (bytes \<Rightarrow> string + jsval) \<Rightarrow> bytes \<Rightarrow> gemini_state
     \<Rightarrow> bool \<times> gemini_state" where
  "handleHandshake clk cdec pl g =
     (case cdec pl of
        Inl m \<Rightarrow> (True, g)
      | Inr decoded \<Rightarrow>
          (case js_get decoded 0 of
             None \<Rightarrow> (True, g)
           | Some msgId \<Rightarrow>
               if msgId = JNum 1 then
                 gemini_write clk 2 [0x82, 0x04, 0x80]
                   (glogs [LogV ''<< Handshake Accepted! Negotiated Version: ''
                             (js_prop decoded 1),
                           Log ''>> Sending ChainSync (FindIntersect)...''] g)
               else if msgId = JNum 2 then
                 (False, (glogs [LogV ''<< Handshake Refused:'' (js_prop decoded 2)] g)
                            \<lparr>gsock := (gsock g)\<lparr>destroyed := True\<rparr>\<rparr>)
               else (False, g)))"

definition handleChainSync ::
  "(bytes \<Rightarrow> string + jsval) \<Rightarrow> bytes \<Rightarrow> gemini_state \<Rightarrow> bool \<times> gemini_state" where
  "handleChainSync cdec pl g =
     (case cdec pl of
        Inl m \<Rightarrow> (True, g)
      | Inr decoded \<Rightarrow>
          (case js_get decoded 0 of
             None \<Rightarrow> (True, g)
           | Some msgId \<Rightarrow>
               if msgId = JNum 5 \<or> msgId = JNum 6 then
                 (case js_last decoded of
                    None \<Rightarrow> (True, g)
                  | Some t \<Rightarrow>
                      (case iterate t of
                         None \<Rightarrow> (True, g)
                       | Some tp \<Rightarrow>
                           (case iterate (idx tp 0) of
                              None \<Rightarrow> (True, g)
                            | Some pt \<Rightarrow>
                                let g1 = glogs [Log ''CURRENT CARDANO MAINNET TIP'',
                                                Log ''=============================='',
                                                LogV ''Slot:      '' (idx pt 0),
                                                LogV ''Block No:  '' (idx tp 1)] g
                                in (case idx pt 1 of
                                      JUndefined \<Rightarrow> (True, g1)
                                    | JNull \<Rightarrow> (True, g1)
                                    | JNum n \<Rightarrow> (True, g1)
                                    | hash \<Rightarrow>
                                        (False, (glogs [LogV ''Hash:      '' hash,
                                                        Log ''==============================''] g1)
                                                  \<lparr>gsock := (gsock g)\<lparr>destroyed := True\<rparr>\<rparr>)))))
               else (False, g)))"

text \<open>The body of the loop (lines 101-110): the \<^verbatim>\<open>try\<close> and its \<^verbatim>\<open>catch\<close>.\<close>

definition gemini_dispatch ::
  "(nat \<Rightarrow> int) \<Rightarrow> (bytes \<Rightarrow> string + jsval) \<Rightarrow> int \<Rightarrow> bytes \<Rightarrow> gemini_state
     \<Rightarrow> gemini_state" where
  "gemini_dispatch clk cdec protocolId pl g =
     (case (if protocolId = 0 then handleHandshake clk cdec pl g
            else if protocolId = 2 then handleChainSync cdec pl g
            else (False, g)) of
        (threw, g') \<Rightarrow>
          if threw then (glogs [Log ''Decoding Error:''] g')
                          \<lparr>gsock := (gsock g')\<lparr>destroyed := True\<rparr>\<rparr>
          else g')"

text \<open>
  The callbacks: connection (lines 81-87), \<^verbatim>\<open>'data'\<close> (89-112), \<^verbatim>\<open>'error'\<close> and \<^verbatim>\<open>'close'\<close>
  (156-157). An exception in the connection callback is not caught. The file never calls
  \<^verbatim>\<open>process.exit\<close> and never sets \<^verbatim>\<open>process.exitCode\<close>: the status is 0 unless an exception
  escaped.
\<close>

datatype gemini_event = GConnect | GData bytes | GError | GClose

definition gemini_step ::
  "(nat \<Rightarrow> int) \<Rightarrow> (bytes \<Rightarrow> string + jsval) \<Rightarrow> bytes \<times> gemini_state \<Rightarrow> gemini_event
     \<Rightarrow> bytes \<times> gemini_state" where
  "gemini_step clk cdec st ev =
     (case st of
        (buffer, g) \<Rightarrow>
          if gcrashed g then st
          else
            (case ev of
               GConnect \<Rightarrow>
                 (case gemini_write clk 0 buildHandshakePayload
                         (glogs [Log ''Connected'',
                                 Log ''>> Sending Handshake (Manual CBOR V10/V13)...''] g) of
                    (threw, g') \<Rightarrow> (buffer, g'\<lparr>gcrashed := threw\<rparr>))
             | GData chunk \<Rightarrow> gemini_on_data (gemini_dispatch clk cdec) (buffer, g) chunk
             | GError \<Rightarrow> (buffer, glogs [Log ''Socket Error:''] g)
             | GClose \<Rightarrow> (buffer, glogs [Log ''Disconnected''] g)))"

definition gemini_run ::
  "(nat \<Rightarrow> int) \<Rightarrow> (bytes \<Rightarrow> string + jsval) \<Rightarrow> gemini_event list \<Rightarrow> bytes \<times> gemini_state" where
  "gemini_run clk cdec evs = foldl (gemini_step clk cdec) ([], gemini_init) evs"


definition gemini_frame_pid :: "bytes \<Rightarrow> int" where
  "gemini_frame_pid f = uint (readUInt16BE f 4)"

text \<open>For the examples: a clock that always reads 0.\<close>

definition clk0 :: "nat \<Rightarrow> int" where
  "clk0 n = 0"

text \<open>For the examples: a whole segment as a peer sends it, with transmission time 0.\<close>

definition sdu :: "int \<Rightarrow> int \<Rightarrow> bytes \<Rightarrow> bytes" where
  "sdu md mp pl = u32be 0 @ u32be (pack_word md mp (length pl)) @ pl"

text \<open>
  For the examples: a configuration of part_001, the replies of a run in which only the
  handshake is answered (with the given payload, the later reads time out), and three
  handshake replies: \<open>[2, [0, [15, 14]]]\<close>, \<open>[3, {}]\<close> and \<open>[1, 14, []]\<close>.
\<close>

definition example_cfg :: config where
  "example_cfg = \<lparr>HOST = ''relay'', PORT = 3001, NETWORK_MAGIC = 764824073,
                   WANT_PEER_SHARING = False\<rparr>"

definition handshake_reply :: "bytes \<Rightarrow> replies" where
  "handshake_reply pl =
     \<lparr>connectR = None,
      hsResp = Inr \<lparr>transmissionTime = 0, mode = 1, miniProtocolId = 0, payload = pl\<rparr>,
      csResp = Inl FrameTimeout, psResp = Inl FrameTimeout\<rparr>"

definition refuse_payload :: bytes where
  "refuse_payload = [0x82, 0x02, 0x82, 0x00, 0x82, 0x0F, 0x0E]"

definition query_reply_payload :: bytes where
  "query_reply_payload = [0x82, 0x03, 0xA0]"

definition accept_payload :: bytes where
  "accept_payload = [0x83, 0x01, 0x0E, 0x80]"



section \<open>The mux codec: proofs\<close>

lemma read32_append: "off + 4 \<le> length buf \<Longrightarrow> readUInt32BE (buf @ c) off = readUInt32BE buf off"
  by (simp add: readUInt32BE_def nth_append)

lemma read16_append: "off + 2 \<le> length buf \<Longrightarrow> readUInt16BE (buf @ c) off = readUInt16BE buf off"
  by (simp add: readUInt16BE_def nth_append)

lemma loop_append:
  "MuxReader_loop h (buf @ c) s =
     (case MuxReader_loop h buf s of
        (b', Inl e) \<Rightarrow> (b' @ c, Inl e)
      | (b', Inr s') \<Rightarrow> MuxReader_loop h (b' @ c) s')"
proof (induction h buf s rule: MuxReader_loop.induct)
  case (1 h buf s)
  show ?case
  proof (cases "length buf < 8")
    case True
    then show ?thesis by (subst (2) MuxReader_loop.simps) simp
  next
    case False
    let ?len = "hdr_len (readUInt32BE buf 4)"
    show ?thesis
    proof (cases "length buf < 8 + ?len")
      case True
      with False show ?thesis by (subst (2) MuxReader_loop.simps) (simp add: Let_def)
    next
      case long: False
      let ?seg = "\<lparr>transmissionTime = readUInt32BE buf 0, mode = hdr_mode (readUInt32BE buf 4),
                    miniProtocolId = hdr_mpid (readUInt32BE buf 4),
                    payload = take ?len (drop 8 buf)\<rparr>"
      let ?buf' = "drop (8 + ?len) buf"
      have L: "MuxReader_loop h buf s =
                 (case h ?seg s of Inl e \<Rightarrow> (?buf', Inl e) | Inr s' \<Rightarrow> MuxReader_loop h ?buf' s')"
        using False long by (subst MuxReader_loop.simps) (simp add: Let_def)
      have R: "MuxReader_loop h (buf @ c) s =
                 (case h ?seg s of Inl e \<Rightarrow> (?buf' @ c, Inl e)
                  | Inr s' \<Rightarrow> MuxReader_loop h (?buf' @ c) s')"
        using False long
        by (subst MuxReader_loop.simps) (simp add: Let_def read32_append)
      show ?thesis
      proof (cases "h ?seg s")
        case (Inl e)
        then show ?thesis by (simp add: L R)
      next
        case (Inr s')
        have "MuxReader_loop h (?buf' @ c) s' =
                (case MuxReader_loop h ?buf' s' of
                   (b', Inl e) \<Rightarrow> (b' @ c, Inl e)
                 | (b', Inr s'') \<Rightarrow> MuxReader_loop h (b' @ c) s'')"
          using "1.IH" [OF False refl refl refl long refl refl Inr] .
        then show ?thesis by (simp add: L R Inr)
      qed
    qed
  qed
qed




lemma loop_stalled_id: "stalled buf \<Longrightarrow> MuxReader_loop h buf s = (buf, Inr s)"
  by (subst MuxReader_loop.simps) (auto simp add: stalled_def Let_def)

lemma loop_result_stalled: "MuxReader_loop h buf s = (b', Inr s') \<Longrightarrow> stalled b'"
proof (induction h buf s rule: MuxReader_loop.induct)
  case (1 h buf s)
  show ?case
  proof (cases "stalled buf")
    case True
    with "1.prems" show ?thesis by (simp add: loop_stalled_id)
  next
    case False
    then have A: "\<not> length buf < 8" and B: "\<not> length buf < 8 + hdr_len (readUInt32BE buf 4)"
      by (auto simp add: stalled_def)
    from "1.prems" A B "1.IH" [OF A refl refl refl B refl refl]
    show ?thesis
      by (subst (asm) MuxReader_loop.simps) (auto simp add: Let_def split: sum.splits)
  qed
qed

lemma loop_record_total: "\<exists>b r. MuxReader_loop record_segment buf segs = (b, Inr r)"
proof (induction record_segment buf segs rule: MuxReader_loop.induct)
  case (1 buf s)
  show ?case
  proof (cases "stalled buf")
    case True
    then show ?thesis by (simp add: loop_stalled_id)
  next
    case False
    then have A: "\<not> length buf < 8" and B: "\<not> length buf < 8 + hdr_len (readUInt32BE buf 4)"
      by (auto simp add: stalled_def)
    from A B "1.hyps" [OF A refl refl refl B refl refl]
    show ?thesis
      by (subst MuxReader_loop.simps) (simp add: Let_def record_segment_def)
  qed
qed

lemma feed_002_record:
  "stalled buf \<Longrightarrow>
   feed_002 record_segment buf segs chunks = MuxReader_loop record_segment (buf @ concat chunks) segs"
proof (induction chunks arbitrary: buf segs)
  case Nil
  then show ?case by (simp add: loop_stalled_id)
next
  case (Cons c cs)
  obtain b r where L: "MuxReader_loop record_segment (buf @ c) segs = (b, Inr r)"
    using loop_record_total by blast
  have S: "stalled b" using L by (rule loop_result_stalled)
  have "feed_002 record_segment buf segs (c # cs) = feed_002 record_segment b r cs"
    by (simp add: MuxReader_push_def L)
  also have "\<dots> = MuxReader_loop record_segment (b @ concat cs) r"
    using Cons.IH [OF S] .
  also have "\<dots> = MuxReader_loop record_segment ((buf @ c) @ concat cs) segs"
    by (subst loop_append [of _ "buf @ c"]) (simp add: L)
  finally show ?case by simp
qed


lemma pump_stalled_id: "stalled buf \<Longrightarrow> MuxReader_pump ws buf out = (ws, buf, out)"
  by (subst MuxReader_pump.simps) (auto simp add: stalled_def Let_def)

lemma pump_unfold:
  assumes "\<not> stalled buf"
  shows "MuxReader_pump ws buf out =
     (let w = readUInt32BE buf 4;
          seg = \<lparr>transmissionTime = readUInt32BE buf 0, mode = hdr_mode w,
                  miniProtocolId = hdr_mpid w, payload = take (hdr_len w) (drop 8 buf)\<rparr>
      in case findIndex (\<lambda>x. filterW x (hdr_mpid w) (hdr_mode w)) ws of
           Some i \<Rightarrow> MuxReader_pump (splice1 ws i) (drop (8 + hdr_len w) buf)
                       (out @ [(seg, Some (promiseW (ws ! i)))])
         | None \<Rightarrow> MuxReader_pump ws (drop (8 + hdr_len w) buf) (out @ [(seg, None)]))"
  using assms by (subst MuxReader_pump.simps) (simp add: stalled_def Let_def)

lemma stalled_append:
  "\<not> stalled buf \<Longrightarrow> \<not> stalled (buf @ c)"
  by (auto simp add: stalled_def read32_append)

lemma pump_append:
  "MuxReader_pump ws (buf @ c) out =
     (case MuxReader_pump ws buf out of (ws', b', out') \<Rightarrow> MuxReader_pump ws' (b' @ c) out')"
proof (induction ws buf out rule: MuxReader_pump.induct)
  case (1 ws buf out)
  show ?case
  proof (cases "stalled buf")
    case True
    then show ?thesis by (simp add: pump_stalled_id)
  next
    case False
    then have A: "\<not> length buf < 8" and B: "\<not> length buf < 8 + hdr_len (readUInt32BE buf 4)"
      by (auto simp add: stalled_def)
    note IH1 = "1.IH"(1) [OF A refl refl refl refl refl B refl refl refl]
    note IH2 = "1.IH"(2) [OF A refl refl refl refl refl B refl refl refl]
    show ?thesis
      using A B IH1 IH2
      by (simp add: pump_unfold [OF False] pump_unfold [OF stalled_append [OF False]]
            read32_append Let_def split: option.splits)
  qed
qed

lemma pump_result_stalled: "MuxReader_pump ws buf out = (ws', b', out') \<Longrightarrow> stalled b'"
proof (induction ws buf out rule: MuxReader_pump.induct)
  case (1 ws buf out)
  show ?case
  proof (cases "stalled buf")
    case True
    with "1.prems" show ?thesis by (simp add: pump_stalled_id)
  next
    case False
    then have A: "\<not> length buf < 8" and B: "\<not> length buf < 8 + hdr_len (readUInt32BE buf 4)"
      by (auto simp add: stalled_def)
    note IH1 = "1.IH"(1) [OF A refl refl refl refl refl B refl refl refl]
    note IH2 = "1.IH"(2) [OF A refl refl refl refl refl B refl refl refl]
    from "1.prems" IH1 IH2 show ?thesis
      by (auto simp add: pump_unfold [OF False] Let_def split: option.splits)
  qed
qed

lemma feed_001_concat:
  "stalled buf \<Longrightarrow>
   foldl on_data_001 (ws, buf, out) chunks = MuxReader_pump ws (buf @ concat chunks) out"
proof (induction chunks arbitrary: ws buf out)
  case Nil
  then show ?case by (simp add: pump_stalled_id)
next
  case (Cons c cs)
  obtain ws' b' out' where L: "MuxReader_pump ws (buf @ c) out = (ws', b', out')"
    by (cases "MuxReader_pump ws (buf @ c) out") auto
  have S: "stalled b'" using L by (rule pump_result_stalled)
  have "foldl on_data_001 (ws, buf, out) (c # cs) = foldl on_data_001 (ws', b', out') cs"
    by (simp add: on_data_001_def L)
  also have "\<dots> = MuxReader_pump ws' (b' @ concat cs) out'"
    using Cons.IH [OF S] .
  also have "\<dots> = MuxReader_pump ws ((buf @ c) @ concat cs) out"
    by (subst pump_append [of _ "buf @ c"]) (simp add: L)
  finally show ?case by simp
qed


lemma gloop_stalled_id: "gstalled buf \<Longrightarrow> gemini_loop h buf s = (buf, s)"
  by (subst gemini_loop.simps) (auto simp add: gstalled_def Let_def)

lemma gloop_unfold:
  "\<not> gstalled buf \<Longrightarrow>
   gemini_loop h buf s =
     gemini_loop h (drop (8 + unat (readUInt16BE buf 6)) buf)
       (h (uint (readUInt16BE buf 4)) (take (unat (readUInt16BE buf 6)) (drop 8 buf)) s)"
  by (subst gemini_loop.simps) (simp add: gstalled_def Let_def)

lemma gstalled_append: "\<not> gstalled buf \<Longrightarrow> \<not> gstalled (buf @ c)"
  by (auto simp add: gstalled_def read16_append)

lemma gloop_append:
  "gemini_loop h (buf @ c) s =
     (case gemini_loop h buf s of (b', s') \<Rightarrow> gemini_loop h (b' @ c) s')"
proof (induction h buf s rule: gemini_loop.induct)
  case (1 h buf s)
  show ?case
  proof (cases "gstalled buf")
    case True
    then show ?thesis by (simp add: gloop_stalled_id)
  next
    case False
    then have A: "\<not> length buf < 8" and B: "\<not> length buf < 8 + unat (readUInt16BE buf 6)"
      by (auto simp add: gstalled_def)
    note IH = "1.IH" [OF A refl refl B refl refl]
    show ?thesis
      using A B IH
      by (simp add: gloop_unfold [OF False] gloop_unfold [OF gstalled_append [OF False]]
            read16_append)
  qed
qed

lemma gloop_result_stalled: "gemini_loop h buf s = (b', s') \<Longrightarrow> gstalled b'"
proof (induction h buf s rule: gemini_loop.induct)
  case (1 h buf s)
  show ?case
  proof (cases "gstalled buf")
    case True
    with "1.prems" show ?thesis by (simp add: gloop_stalled_id)
  next
    case False
    then have A: "\<not> length buf < 8" and B: "\<not> length buf < 8 + unat (readUInt16BE buf 6)"
      by (auto simp add: gstalled_def)
    note IH = "1.IH" [OF A refl refl B refl refl]
    from "1.prems" IH show ?thesis
      by (simp add: gloop_unfold [OF False])
  qed
qed

lemma gemini_feed_concat:
  "gstalled buf \<Longrightarrow>
   foldl (gemini_on_data h) (buf, s) chunks = gemini_loop h (buf @ concat chunks) s"
proof (induction chunks arbitrary: buf s)
  case Nil
  then show ?case by (simp add: gloop_stalled_id)
next
  case (Cons c cs)
  obtain b' s' where L: "gemini_loop h (buf @ c) s = (b', s')"
    by (cases "gemini_loop h (buf @ c) s") auto
  have S: "gstalled b'" using L by (rule gloop_result_stalled)
  have "foldl (gemini_on_data h) (buf, s) (c # cs) = foldl (gemini_on_data h) (b', s') cs"
    by (simp add: gemini_on_data_def L)
  also have "\<dots> = gemini_loop h (b' @ concat cs) s'"
    using Cons.IH [OF S] .
  also have "\<dots> = gemini_loop h ((buf @ c) @ concat cs) s"
    by (subst gloop_append [of _ "buf @ c"]) (simp add: L)
  finally show ?case by simp
qed


lemma read_u32be: "readUInt32BE (pre @ u32be w @ rest) (length pre) = w"
  unfolding readUInt32BE_def u32be_def
  apply (simp add: nth_append)
  apply (rule bit_word_eqI)
  apply (simp add: bit_simps)
  subgoal for n
    by (cases "n < 8"; cases "n < 16"; cases "n < 24"; auto)
  done

lemma length_u32be [simp]: "length (u32be w) = 4"
  by (simp add: u32be_def)

lemma read_header:
  "readUInt32BE (u32be a @ u32be b @ rest) 0 = a"
  "readUInt32BE (u32be a @ u32be b @ rest) 4 = b"
  using read_u32be [of "[]" a "u32be b @ rest"] read_u32be [of "u32be a" b rest]
  by simp_all

lemma mask_numerals:
  "(1 :: 32 word) = mask 1" "(0x7fff :: 32 word) = mask 15" "(0xffff :: 32 word) = mask 16"
  by (simp_all add: mask_eq_exp_minus_1)

lemma pack_word_take_bit:
  "pack_word m p len =
     push_bit 31 (take_bit 1 (word_of_int m)) OR push_bit 16 (take_bit 15 (word_of_int p))
       OR take_bit 16 (word_of_nat len)"
  unfolding pack_word_def ToInt32_def
  apply (simp only: mask_numerals)
  apply (simp add: take_bit_eq_mask)
  done

lemma bit_small_nat: "len < 2 ^ k \<Longrightarrow> bit len n \<Longrightarrow> n < k" for len :: nat
  by (metis bit_take_bit_iff take_bit_nat_eq_self)

lemma bit_small_int: "0 \<le> p \<Longrightarrow> p < 2 ^ k \<Longrightarrow> bit p n \<Longrightarrow> n < k" for p :: int
  by (metis bit_take_bit_iff take_bit_int_eq_self)

lemma hdr_len_pack: "len \<le> 0xffff \<Longrightarrow> hdr_len (pack_word m p len) = len"
proof -
  assume L: "len \<le> 0xffff"
  have B: "bit len n \<Longrightarrow> n < 16" for n
    using L bit_small_nat [of len 16 n] by simp
  have "pack_word m p len AND 0xffff = (word_of_nat len :: 32 word)"
    unfolding pack_word_take_bit mask_numerals
    apply (rule bit_word_eqI)
    using L
    apply (auto simp add: bit_simps dest: B)
    done
  then have "hdr_len (pack_word m p len) = unat (word_of_nat len :: 32 word)"
    by (simp add: hdr_len_def)
  also have "\<dots> = len" using L by (simp add: unat_of_nat)
  finally show ?thesis .
qed

lemma hdr_mpid_pack: "0 \<le> p \<Longrightarrow> p \<le> 0x7fff \<Longrightarrow> hdr_mpid (pack_word m p len) = p"
proof -
  assume P: "0 \<le> p" "p \<le> 0x7fff"
  have B: "bit p n \<Longrightarrow> n < 15" for n
    using P bit_small_int [of p 15 n] by simp
  have "drop_bit 16 (pack_word m p len) AND 0x7fff = (word_of_int p :: 32 word)"
    unfolding pack_word_take_bit mask_numerals
    apply (rule bit_word_eqI)
    using P
    apply (auto simp add: bit_simps dest: B)
    done
  then have "hdr_mpid (pack_word m p len) = uint (word_of_int p :: 32 word)"
    by (simp add: hdr_mpid_def)
  also have "\<dots> = p" using P by (simp add: uint_word_of_int take_bit_int_eq_self)
  finally show ?thesis .
qed

lemma hdr_mode_pack: "m = 0 \<or> m = 1 \<Longrightarrow> hdr_mode (pack_word m p len) = m"
proof -
  assume M: "m = 0 \<or> m = 1"
  have "drop_bit 31 (pack_word m p len) AND 1 = (word_of_int m :: 32 word)"
    unfolding pack_word_take_bit mask_numerals
    apply (rule bit_word_eqI)
    using M
    apply (auto simp add: bit_simps)
    done
  then have "hdr_mode (pack_word m p len) = uint (word_of_int m :: 32 word)"
    by (simp add: hdr_mode_def)
  also have "\<dots> = m" using M by auto
  finally show ?thesis .
qed

text \<open>One whole frame in an empty reader.\<close>

lemma loop_one_frame:
  assumes "0 \<le> p" "p \<le> 0x7fff" "m = 0 \<or> m = 1" "length pl \<le> 0xffff"
  shows "MuxReader_loop h (u32be a @ u32be (pack_word m p (length pl)) @ pl) s =
           (case h \<lparr>transmissionTime = a, mode = m, miniProtocolId = p, payload = pl\<rparr> s of
              Inl e \<Rightarrow> ([], Inl e) | Inr s' \<Rightarrow> ([], Inr s'))"
  using assms
  apply (subst MuxReader_loop.simps)
  apply (simp add: read_header hdr_len_pack hdr_mpid_pack hdr_mode_pack Let_def)
  apply (auto split: sum.splits simp add: loop_stalled_id stalled_def)
  done

lemma pump_one_frame:
  assumes "0 \<le> p" "p \<le> 0x7fff" "m = 0 \<or> m = 1" "length pl \<le> 0xffff"
  shows "MuxReader_pump ws (u32be a @ u32be (pack_word m p (length pl)) @ pl) out =
           (let seg = \<lparr>transmissionTime = a, mode = m, miniProtocolId = p, payload = pl\<rparr>
            in case findIndex (\<lambda>w. filterW w p m) ws of
                 Some i \<Rightarrow> (splice1 ws i, [], out @ [(seg, Some (promiseW (ws ! i)))])
               | None \<Rightarrow> (ws, [], out @ [(seg, None)]))"
  using assms
  apply (subst MuxReader_pump.simps)
  apply (simp add: read_header hdr_len_pack hdr_mpid_pack hdr_mode_pack Let_def)
  apply (auto split: option.splits simp add: pump_stalled_id stalled_def)
  done

text \<open>
  C2. For a mini-protocol id in 0..32767, a mode bit 0 or 1 and a payload of at most 65535
  bytes, the encoder succeeds and the reader, started empty and given the frame, takes
  exactly one segment from it, with the same id, mode and payload, and leaves nothing in
  its buffer: \<^verbatim>\<open>muxFrame\<close> with the \<^verbatim>\<open>_pump\<close> of part_001 (which hands the segment to the
  first waiter whose filter passes, or drops it), \<^verbatim>\<open>packSegment\<close> with the \<^verbatim>\<open>push\<close> of
  part_002.
\<close>

theorem mux_roundtrip:
  assumes "0 \<le> mpid" "mpid \<le> 32767" "md = 0 \<or> md = 1"
    and "length pl \<le> 65535"
  shows "(\<exists>frame. muxFrame mpid md pl = Inr frame \<and>
            on_data_001 (waiters, [], []) frame =
              (let seg = \<lparr>transmissionTime = 0, mode = md, miniProtocolId = mpid,
                           payload = pl\<rparr>
               in case findIndex (\<lambda>w. filterW w mpid md) waiters of
                    Some i \<Rightarrow> (splice1 waiters i, [], [(seg, Some (promiseW (waiters ! i)))])
                  | None \<Rightarrow> (waiters, [], [(seg, None)]))) \<and>
         (\<exists>frame. packSegment now mpid md pl = Inr frame \<and>
            MuxReader_push record_segment [] [] frame =
              ([], Inr [\<lparr>transmissionTime = ToInt32 now, mode = md,
                         miniProtocolId = mpid, payload = pl\<rparr>]))"
  using assms
  by (simp add: muxFrame_def packSegment_def muxHeader_def on_data_001_def MuxReader_push_def
        pump_one_frame loop_one_frame record_segment_def Let_def split: option.splits)

theorem mux_roundtrip_witness:
  "(\<exists>frame. muxFrame 2 0 [0x82, 0x04, 0x80] = Inr frame \<and>
      on_data_001 ([\<lparr>filterW = (\<lambda>mp md. mp = 2 \<and> md = 0), promiseW = 1\<rparr>], [], []) frame =
        ([], [], [(\<lparr>transmissionTime = 0, mode = 0, miniProtocolId = 2,
                     payload = [0x82, 0x04, 0x80]\<rparr>, Some 1)])) \<and>
   (\<exists>frame. packSegment 7 2 0 [0x82, 0x04, 0x80] = Inr frame \<and>
      MuxReader_push record_segment [] [] frame =
        ([], Inr [\<lparr>transmissionTime = 7, mode = 0, miniProtocolId = 2,
                   payload = [0x82, 0x04, 0x80]\<rparr>]))"
  using mux_roundtrip [of 2 0 "[0x82, 0x04, 0x80]"
      "[\<lparr>filterW = (\<lambda>mp md. mp = 2 \<and> md = 0), promiseW = 1\<rparr>]" 7]
  by (simp add: splice1_def ToInt32_def)

text \<open>
  C6. Both encoders accept a payload of exactly 65535 bytes (\<^verbatim>\<open>muxFrame\<close> when the id is in
  range, which it checks first), and fail on every payload of 65536 bytes or more; the
  \<^verbatim>\<open>socket.write\<close> around the call then never happens.
\<close>

theorem encoder_length_limit:
  "(length pl = 65535 \<and> 0 \<le> mpid \<and> mpid \<le> 0x7fff \<longrightarrow>
      (\<exists>frame. muxFrame mpid md pl = Inr frame \<and>
         write_frame sk (muxFrame mpid md pl) = Inr (socket_write sk frame))) \<and>
   (length pl = 65535 \<longrightarrow>
      (\<exists>frame. packSegment now mpid md pl = Inr frame \<and>
         write_frame sk (packSegment now mpid md pl) = Inr (socket_write sk frame))) \<and>
   (65536 \<le> length pl \<longrightarrow>
      (\<exists>e. muxFrame mpid md pl = Inl e \<and>
         write_frame sk (muxFrame mpid md pl) = Inl e) \<and>
      packSegment now mpid md pl = Inl (PayloadTooLarge (length pl)) \<and>
      write_frame sk (packSegment now mpid md pl) = Inl (PayloadTooLarge (length pl)))"
  by (auto simp add: muxFrame_def packSegment_def write_frame_def Let_def)

theorem encoder_length_limit_witness:
  "(\<exists>frame. muxFrame 2 0 (replicate 65535 0) = Inr frame \<and>
      write_frame socket0 (muxFrame 2 0 (replicate 65535 0)) = Inr (socket_write socket0 frame)) \<and>
   (\<exists>frame. packSegment 7 2 0 (replicate 65535 0) = Inr frame) \<and>
   (\<exists>e. write_frame socket0 (muxFrame 2 0 (replicate 65536 0)) = Inl e) \<and>
   write_frame socket0 (packSegment 7 2 0 (replicate 65536 0)) = Inl (PayloadTooLarge 65536)"
  using encoder_length_limit [of "replicate 65535 0" 2 0 socket0 7]
    encoder_length_limit [of "replicate 65536 0" 2 0 socket0 7]
  by auto

text \<open>
  C10, as the code has it. Two lists of chunks with the same concatenation, fed in order
  to a fresh reader, give the same segments in the same order, and the same final state:
  for \<^verbatim>\<open>MuxReader.push\<close> of part_002 with an \<^verbatim>\<open>onSegment\<close> that records its argument, and for
  the loop of the lab client's listener with any handler. For the \<^verbatim>\<open>'data'\<close> listener of
  part_001 the same holds of the segments taken from the stream and of the waiter each
  is given to, or its being dropped, for any list of waiters, as long as no \<^verbatim>\<open>readFrame\<close>
  is called between the chunks. In particular \<open>[a @ b]\<close> and \<open>[a, b]\<close> give the same.
\<close>

theorem decoder_chunk_insensitive:
  assumes "concat chunks1 = concat chunks2"
  shows "feed_002 record_segment [] [] chunks1 = feed_002 record_segment [] [] chunks2 \<and>
         feed_001 waiters [] chunks1 = feed_001 waiters [] chunks2 \<and>
         gemini_feed h [] s chunks1 = gemini_feed h [] s chunks2"
proof -
  have S: "stalled []" and G: "gstalled []"
    by (simp_all add: stalled_def gstalled_def)
  show ?thesis
    using assms
    by (simp add: feed_002_record [OF S] feed_001_def feed_001_concat [OF S]
          gemini_feed_def gemini_feed_concat [OF G])
qed

theorem decoder_chunk_insensitive_witness:
  "feed_002 record_segment [] []
       [sdu 1 0 [0x83, 0x01, 0x0E, 0x80] @ sdu 1 2 [0x82, 0x06, 0x83, 0x01, 0x41, 0xAA, 0x02]]
     = feed_002 record_segment [] []
       [sdu 1 0 [0x83, 0x01, 0x0E, 0x80], sdu 1 2 [0x82, 0x06, 0x83, 0x01, 0x41, 0xAA, 0x02]] \<and>
   feed_001 [hs_waiter] []
       [sdu 1 0 [0x83, 0x01, 0x0E, 0x80] @ sdu 1 2 [0x82, 0x06, 0x83, 0x01, 0x41, 0xAA, 0x02]]
     = feed_001 [hs_waiter] []
       [sdu 1 0 [0x83, 0x01, 0x0E, 0x80], sdu 1 2 [0x82, 0x06, 0x83, 0x01, 0x41, 0xAA, 0x02]] \<and>
   gemini_feed record_frame [] []
       [sdu 1 0 [0x83, 0x01, 0x0E, 0x80] @ sdu 1 2 [0x82, 0x06, 0x83, 0x01, 0x41, 0xAA, 0x02]]
     = gemini_feed record_frame [] []
       [sdu 1 0 [0x83, 0x01, 0x0E, 0x80], sdu 1 2 [0x82, 0x06, 0x83, 0x01, 0x41, 0xAA, 0x02]]"
proof -
  have H: "concat [sdu 1 0 [0x83, 0x01, 0x0E, 0x80]
                     @ sdu 1 2 [0x82, 0x06, 0x83, 0x01, 0x41, 0xAA, 0x02]]
         = concat [sdu 1 0 [0x83, 0x01, 0x0E, 0x80],
                   sdu 1 2 [0x82, 0x06, 0x83, 0x01, 0x41, 0xAA, 0x02]]"
    by simp
  show ?thesis
    using decoder_chunk_insensitive [OF H, of "[hs_waiter]" record_frame "[]"] .
qed

section \<open>PeerSharing addresses: proofs\<close>

lemmas toStringRadix_eval =
  toStringRadix.simps [of _ "numeral n"] toStringRadix.simps [of _ 0]
  toStringRadix.simps [of _ "Suc 0"] for n

lemma length_toStringRadix16: "0 < k \<Longrightarrow> n < 16 ^ k \<Longrightarrow> length (toStringRadix 16 n) \<le> k"
proof (induction k arbitrary: n)
  case 0
  then show ?case by simp
next
  case (Suc k)
  show ?case
  proof (cases "n < 16")
    case True
    then show ?thesis by (subst toStringRadix.simps) simp
  next
    case False
    then have "0 < k" using Suc.prems by (cases k) auto
    moreover have "n div 16 < 16 ^ k"
      using Suc.prems by (simp add: less_mult_imp_div_less mult.commute)
    ultimately have "length (toStringRadix 16 (n div 16)) \<le> k" by (rule Suc.IH)
    with False show ?thesis by (subst toStringRadix.simps) simp
  qed
qed

lemma hex_digit: "d < 16 \<Longrightarrow> digit_char d \<in> set ''0123456789abcdef''"
  unfolding digit_char_def by (rule nth_mem) simp

lemma set_toStringRadix16: "set (toStringRadix 16 n) \<subseteq> set ''0123456789abcdef''"
proof (induction n rule: less_induct)
  case (less n)
  show ?case
  proof (cases "n < 16")
    case True
    then show ?thesis using hex_digit [of n] by (subst toStringRadix.simps) simp
  next
    case False
    then have "n div 16 < n" by simp
    from less.IH [OF this] hex_digit [of "n mod 16"] False show ?thesis
      by (subst toStringRadix.simps) simp
  qed
qed

lemma ToUint32_lt: "ToUint32 tn v < 2 ^ 32"
proof -
  have "nat (k mod 2 ^ 32) < 2 ^ 32" for k :: int
    by (simp add: nat_less_iff)
  then show ?thesis
    by (cases v) (simp_all add: ToUint32_def)
qed

lemma length_word_hex: "length (word_hex tn w) = 8"
proof -
  have "ToUint32 tn w < 16 ^ 8" using ToUint32_lt [of tn w] by simp
  then have "length (toStringRadix 16 (ToUint32 tn w)) \<le> 8"
    by (intro length_toStringRadix16) simp_all
  then show ?thesis by (simp add: word_hex_def padStart_def)
qed

lemma set_word_hex: "set (word_hex tn w) \<subseteq> set ''0123456789abcdef''"
  using set_toStringRadix16 [of "ToUint32 tn w"]
  by (auto simp add: word_hex_def padStart_def)

lemma no_colon_word_hex: "CHR '':'' \<notin> set (word_hex tn w)"
  using set_word_hex [of tn w] by auto

lemma colon_groups_single: "CHR '':'' \<notin> set g \<Longrightarrow> colon_groups g = [g]"
  by (induction g) auto

lemma colon_groups_cons:
  "CHR '':'' \<notin> set g \<Longrightarrow> colon_groups (g @ CHR '':'' # rest) = g # colon_groups rest"
  by (induction g) auto

text \<open>
  C9, as the code has it. An IPv6 entry \<open>[1, w0, w1, w2, w3, port]\<close> becomes four groups
  joined by colons, one per 32-bit word, each of exactly eight lower-case hexadecimal
  digits (\<^verbatim>\<open>(w >>> 0).toString(16).padStart(8, '0')\<close>), so 35 characters; part_002 pairs
  it with \<^verbatim>\<open>port >>> 0\<close>, part_001 with the port as decoded.
\<close>

theorem ipv6_entry_four_groups:
  "parsePeerAddresses tn (JArr [JArr [JNum 1, w0, w1, w2, w3, prt]]) =
     Inr [\<lparr>ip = word_hex tn w0 @ '':'' @ word_hex tn w1 @ '':'' @ word_hex tn w2 @ '':''
                @ word_hex tn w3,
           port = ToUint32 tn prt\<rparr>] \<and>
   peer_of_addr tn (JArr [JNum 1, w0, w1, w2, w3, prt]) =
     Peer (word_hex tn w0 @ '':'' @ word_hex tn w1 @ '':'' @ word_hex tn w2 @ '':''
             @ word_hex tn w3) prt \<and>
   colon_groups (word_hex tn w0 @ '':'' @ word_hex tn w1 @ '':'' @ word_hex tn w2 @ '':''
                   @ word_hex tn w3)
     = [word_hex tn w0, word_hex tn w1, word_hex tn w2, word_hex tn w3] \<and>
   length (word_hex tn w) = 8 \<and>
   set (word_hex tn w) \<subseteq> set ''0123456789abcdef'' \<and>
   word_hex tn (JNum n) = padStart 8 (CHR ''0'') (toStringRadix 16 (nat (n mod 2 ^ 32)))"
proof -
  have "colon_groups (word_hex tn w0 @ '':'' @ word_hex tn w1 @ '':'' @ word_hex tn w2 @ '':''
                        @ word_hex tn w3)
          = [word_hex tn w0, word_hex tn w1, word_hex tn w2, word_hex tn w3]"
    by (simp add: colon_groups_cons colon_groups_single no_colon_word_hex)
  moreover have "parsePeerAddresses tn (JArr [JArr [JNum 1, w0, w1, w2, w3, prt]]) =
     Inr [\<lparr>ip = word_hex tn w0 @ '':'' @ word_hex tn w1 @ '':'' @ word_hex tn w2 @ '':''
                @ word_hex tn w3,
           port = ToUint32 tn prt\<rparr>]"
    by (simp add: parsePeerAddresses_def parsePeerAddress_def iterate_def falsy_def idx_def)
  moreover have "peer_of_addr tn (JArr [JNum 1, w0, w1, w2, w3, prt]) =
     Peer (word_hex tn w0 @ '':'' @ word_hex tn w1 @ '':'' @ word_hex tn w2 @ '':''
             @ word_hex tn w3) prt"
    by (simp add: peer_of_addr_def idx_def)
  moreover have "word_hex tn (JNum n)
      = padStart 8 (CHR ''0'') (toStringRadix 16 (nat (n mod 2 ^ 32)))"
    by (simp add: word_hex_def ToUint32_def)
  ultimately show ?thesis
    using length_word_hex [of tn w] set_word_hex [of tn w] by simp
qed

text \<open>
  The entry of the third end-to-end scenario of the specification: both clients give
  \<^verbatim>\<open>20010db8:00000000:00000000:00000001\<close>, which has four groups between colons, not eight.
\<close>

theorem ipv6_eight_groups_counterexample:
  "parsePeerAddresses tn0
       (JArr [JArr [JNum 1, JNum 0x20010DB8, JNum 0, JNum 0, JNum 1, JNum 3001]])
     = Inr [\<lparr>ip = ''20010db8:00000000:00000000:00000001'', port = 3001\<rparr>] \<and>
   peer_of_addr tn0 (JArr [JNum 1, JNum 0x20010DB8, JNum 0, JNum 0, JNum 1, JNum 3001])
     = Peer ''20010db8:00000000:00000000:00000001'' (JNum 3001) \<and>
   length (colon_groups ''20010db8:00000000:00000000:00000001'') \<noteq> 8"
proof -
  have R: "replicate 7 c = [c, c, c, c, c, c, c]" for c :: char
    by (simp add: eval_nat_numeral)
  have H: "word_hex tn0 (JNum 0x20010DB8) = ''20010db8''"
    "word_hex tn0 (JNum 0) = ''00000000''" "word_hex tn0 (JNum 1) = ''00000001''"
    by (simp_all add: word_hex_def ToUint32_def padStart_def toStringRadix_eval
          digit_char_def R)
  show ?thesis
    by (simp add: parsePeerAddresses_def parsePeerAddress_def peer_of_addr_def iterate_def
          falsy_def idx_def H ToUint32_def)
qed

section \<open>The clients: proofs\<close>

subsection \<open>Examples of replies, decoded\<close>

lemma cbor_items_numeral:
  "cbor_items fuel (numeral k) bs =
     (case cbor_item fuel bs of
        None \<Rightarrow> None
      | Some (v, r) \<Rightarrow>
          (case cbor_items fuel (pred_numeral k) r of
             None \<Rightarrow> None
           | Some (vs, r') \<Rightarrow> Some (v # vs, r')))"
  by (simp add: numeral_eq_Suc)

lemmas cbor_eval = cbor_decode_def cbor_head_def cbor_arg_def be_uint_def Let_def
  cbor_items_numeral

lemma decode_refuse:
  "cbor_decode [0x82, 0x02, 0x82, 0x00, 0x82, 0x0F, 0x0E]
     = Inr (JArr [JNum 2, JArr [JNum 0, JArr [JNum 15, JNum 14]]])"
  by (simp add: cbor_eval)

lemma decode_query_reply:
  "cbor_decode [0x82, 0x03, 0xA0] = Inr (JArr [JNum 3, JMap []])"
  by (simp add: cbor_eval)

lemma decode_not_found:
  "cbor_decode [0x82, 0x06, 0x83, 0x01, 0x41, 0xAA, 0x02]
     = Inr (JArr [JNum 6, JArr [JNum 1, JBuf [0xAA], JNum 2]])"
  by (simp add: cbor_eval)

lemma decode_found:
  "cbor_decode [0x83, 0x05, 0x80, 0x83, 0x01, 0x41, 0xAA, 0x02]
     = Inr (JArr [JNum 5, JArr [], JArr [JNum 1, JBuf [0xAA], JNum 2]])"
  by (simp add: cbor_eval)

subsection \<open>ChainSync tip\<close>

text \<open>
  C1. \<^verbatim>\<open>run()\<close> of part_001 takes element 1 of a \<open>[6, tip]\<close> reply and element 2 of a
  \<open>[5, point, tip]\<close> reply, the last element in both. \<^verbatim>\<open>connectAndFetchTip\<close> of part_002
  has the two tags the other way round (line 215): for \<open>[6, tip]\<close> it takes element 2, which
  is \<^verbatim>\<open>undefined\<close>, and for \<open>[5, point, tip]\<close> element 1, the point. Shown on the replies
  \<open>[6, [1, h'AA', 2]]\<close> and \<open>[5, [], [1, h'AA', 2]]\<close>: the promise resolves with
  \<^verbatim>\<open>tipRaw\<close> \<^verbatim>\<open>undefined\<close> and \<open>[]\<close>.
\<close>

theorem chainsync_tip_part_002:
  "tip_of_002 [JNum 6, tp] = JUndefined \<and>
   tip_of_002 [JNum 5, pt, tp] = pt \<and>
   tip_of_001 (JArr [JNum 6, tp]) = Some tp \<and>
   tip_of_001 (JArr [JNum 5, pt, tp]) = Some tp \<and>
   settled (client_of ([], onSegment_002 clk0 cbor_encode cbor_decode tn0 ''relay'' 3001
       \<lparr>transmissionTime = 0, mode = 1, miniProtocolId = 2,
        payload = [0x82, 0x06, 0x83, 0x01, 0x41, 0xAA, 0x02]\<rparr> init_002))
     = Resolved \<lparr>r_host = ''relay'', r_port = 3001, r_negotiatedVersion = JNull,
                 peersDiscovered = [], tip = JUndefined, tipRaw = JUndefined\<rparr> \<and>
   settled (client_of ([], onSegment_002 clk0 cbor_encode cbor_decode tn0 ''relay'' 3001
       \<lparr>transmissionTime = 0, mode = 1, miniProtocolId = 2,
        payload = [0x83, 0x05, 0x80, 0x83, 0x01, 0x41, 0xAA, 0x02]\<rparr> init_002))
     = Resolved \<lparr>r_host = ''relay'', r_port = 3001, r_negotiatedVersion = JNull,
                 peersDiscovered = [], tip = JArr [], tipRaw = JArr []\<rparr>"
  by (simp add: tip_of_002_def tip_of_001_def idx_def onSegment_002_def decode_not_found
        decode_found MP_HANDSHAKE_def MP_PEERSHARE_def MP_CHAINSYNC_def client_of_def
        init_002_def resolve_def prettyTip_def Let_def)


subsection \<open>The frames \<^verbatim>\<open>run()\<close> of part_001 writes\<close>

text \<open>
  A frame an encoder returns carries the mini-protocol id it was given; a property of
  frames that holds for the ids 0, 2 and (when peer sharing is wanted) 10 holds for
  everything \<^verbatim>\<open>run()\<close> writes.
\<close>

lemma frame_mpid_muxFrame: "muxFrame mp md pl = Inr f \<Longrightarrow> frame_mpid f = mp"
  by (auto simp add: muxFrame_def frame_mpid_def Let_def read_header hdr_mpid_pack
        split: if_splits)

lemma frame_mpid_packSegment:
  "packSegment now mp md pl = Inr f \<Longrightarrow> 0 \<le> mp \<Longrightarrow> mp \<le> 0x7fff \<Longrightarrow> frame_mpid f = mp"
  by (auto simp add: packSegment_def muxHeader_def frame_mpid_def Let_def read_header
        hdr_mpid_pack split: if_splits)

lemma list_all_socket_write:
  "list_all P (written s) \<Longrightarrow> P f \<Longrightarrow> list_all P (written (socket_write s f))"
  by (simp add: socket_write_def)

lemma written_socket_write_prefix: "\<exists>ws. written (socket_write s f) = written s @ ws"
  by (simp add: socket_write_def)

lemma list_all_write_muxFrame:
  "write_frame s (muxFrame mp md pl) = Inr s' \<Longrightarrow> list_all P (written s)
     \<Longrightarrow> (\<And>f. frame_mpid f = mp \<Longrightarrow> P f) \<Longrightarrow> list_all P (written s')"
  by (auto simp add: write_frame_def split: sum.splits
        intro!: list_all_socket_write dest: frame_mpid_muxFrame)

lemma list_all_peer_sharing_001:
  assumes "list_all P (written s)" and "WANT_PEER_SHARING cfg \<Longrightarrow> (\<And>f. frame_mpid f = 10 \<Longrightarrow> P f)"
  shows "list_all P (written (fst (peer_sharing_001 cfg enc dec tn ps s)))"
proof (cases "WANT_PEER_SHARING cfg")
  case False
  then show ?thesis using assms by (simp add: peer_sharing_001_def)
next
  case True
  show ?thesis
  proof (cases "write_frame s (muxFrame MP_PEERSHARE 0 (enc (JArr [JNum 0, JNum 25])))")
    case (Inl e)
    then show ?thesis using True assms by (simp add: peer_sharing_001_def)
  next
    case (Inr s')
    have "list_all P (written s')"
      using Inr assms True by (auto intro: list_all_write_muxFrame simp add: MP_PEERSHARE_def)
    then show ?thesis
      using True Inr
      by (simp add: peer_sharing_001_def split: sum.splits jsval.splits)
  qed
qed

lemma list_all_after_handshake_001:
  assumes "list_all P (written s1)" and "\<And>f. frame_mpid f = 2 \<Longrightarrow> P f"
    and "WANT_PEER_SHARING cfg \<Longrightarrow> (\<And>f. frame_mpid f = 10 \<Longrightarrow> P f)"
  shows "list_all P (written (fst (after_handshake_001 cfg enc dec tn r s1 xs)))"
proof (cases "write_frame s1 (muxFrame MP_CHAINSYNC 0 (enc (JArr [JNum 4, JArr []])))")
  case (Inl e)
  then show ?thesis using assms by (simp add: after_handshake_001_def)
next
  case (Inr s2)
  have S2: "list_all P (written s2)"
    using Inr assms by (auto intro: list_all_write_muxFrame simp add: MP_CHAINSYNC_def)
  have "list_all P (written s3)" if "peer_sharing_001 cfg enc dec tn ps s2 = (s3, pp)"
    for ps s3 pp
    using list_all_peer_sharing_001 [OF S2 assms(3), of cfg enc dec tn ps] that by simp
  then show ?thesis
    using Inr S2
    by (auto simp add: after_handshake_001_def Let_def split: sum.splits option.splits prod.splits)
qed


lemma list_all_run_001:
  assumes "\<And>f. frame_mpid f = 0 \<Longrightarrow> P f" and "\<And>f. frame_mpid f = 2 \<Longrightarrow> P f"
    and "WANT_PEER_SHARING cfg \<Longrightarrow> (\<And>f. frame_mpid f = 10 \<Longrightarrow> P f)"
  shows "list_all P (written (fst (run_001 cfg enc dec tn r)))"
proof (cases "connectR r")
  case (Some e)
  then show ?thesis by (simp add: run_001_def socket0_def)
next
  case None
  show ?thesis
  proof (cases "write_frame socket0 (muxFrame MP_HANDSHAKE 0 (enc (handshakePropose cfg)))")
    case (Inl e)
    then show ?thesis using None by (simp add: run_001_def socket0_def)
  next
    case (Inr s1)
    have S1: "list_all P (written s1)"
      using Inr assms(1)
      by (auto intro: list_all_write_muxFrame simp add: MP_HANDSHAKE_def socket0_def)
    have "list_all P (written (fst (after_handshake_001 cfg enc dec tn r s1 xs)))" for xs
      using S1 assms(2,3) by (rule list_all_after_handshake_001)
    then show ?thesis
      using None Inr S1
      by (auto simp add: run_001_def Let_def split: sum.splits jsval.splits)
  qed
qed

text \<open>Whether the handshake reply \<^verbatim>\<open>run()\<close> got is an accept.\<close>

lemma run_001_no_accept:
  assumes "\<And>hs xs. hsResp r = Inr hs \<Longrightarrow> decodeCbor dec (payload hs) = JArr xs \<Longrightarrow> idx xs 0 \<noteq> JNum 1"
  shows "list_all (\<lambda>f. frame_mpid f = 0) (written (fst (run_001 cfg enc dec tn r)))"
proof (cases "connectR r")
  case (Some e)
  then show ?thesis by (simp add: run_001_def socket0_def)
next
  case None
  show ?thesis
  proof (cases "write_frame socket0 (muxFrame MP_HANDSHAKE 0 (enc (handshakePropose cfg)))")
    case (Inl e)
    then show ?thesis using None by (simp add: run_001_def socket0_def)
  next
    case (Inr s1)
    have S1: "list_all (\<lambda>f. frame_mpid f = 0) (written s1)"
      using Inr
      by (auto intro: list_all_write_muxFrame simp add: MP_HANDSHAKE_def socket0_def)
    show ?thesis
      using None Inr S1 assms
      by (auto simp add: run_001_def Let_def split: sum.splits jsval.splits)
  qed
qed

subsection \<open>Invariants of \<^verbatim>\<open>connectAndFetchTip\<close>\<close>

text \<open>
  What \<^verbatim>\<open>onSegment\<close> keeps, the loop of \<^verbatim>\<open>push\<close> keeps, and so does every event.
\<close>

lemma MuxReader_loop_invariant:
  fixes h :: "segment \<Rightarrow> client_002 \<Rightarrow> (error \<times> client_002) + client_002"
  shows "(\<And>seg c. I c \<Longrightarrow> I (client_of ([], h seg c))) \<Longrightarrow> I c
           \<Longrightarrow> I (client_of (MuxReader_loop h buf c))"
proof (induction h buf c rule: MuxReader_loop.induct)
  case (1 h buf c)
  show ?case
  proof (cases "stalled buf")
    case True
    then show ?thesis using "1.prems"(2) by (simp add: loop_stalled_id client_of_def)
  next
    case False
    then have A: "\<not> length buf < 8" and B: "\<not> length buf < 8 + hdr_len (readUInt32BE buf 4)"
      by (auto simp add: stalled_def)
    let ?seg = "\<lparr>transmissionTime = readUInt32BE buf 0, mode = hdr_mode (readUInt32BE buf 4),
                  miniProtocolId = hdr_mpid (readUInt32BE buf 4),
                  payload = take (hdr_len (readUInt32BE buf 4)) (drop 8 buf)\<rparr>"
    have S: "I (client_of ([], h ?seg c))" using "1.prems"(1) "1.prems"(2) by blast
    show ?thesis
    proof (cases "h ?seg c")
      case (Inl ec)
      then show ?thesis
        using A B S
        by (subst MuxReader_loop.simps) (simp add: Let_def client_of_def)
    next
      case (Inr c')
      have "I c'" using S Inr by (simp add: client_of_def)
      then have "I (client_of (MuxReader_loop h (drop (8 + hdr_len (readUInt32BE buf 4)) buf) c'))"
        using "1.IH" [OF A refl refl refl B refl refl Inr] "1.prems"(1) by blast
      then show ?thesis
        using A B Inr
        by (subst MuxReader_loop.simps) (simp add: Let_def)
    qed
  qed
qed


lemma list_all_write_002:
  assumes "0 \<le> mp" "mp \<le> 0x7fff" "\<And>f. frame_mpid f = mp \<Longrightarrow> P f"
    and "list_all P (written (sock c))"
  shows "list_all P (written (sock (client_of (b, write_002 clk mp pl c))))"
proof (cases "packSegment (clk (ticks c)) mp 0 pl")
  case (Inl e)
  then show ?thesis using assms(4) by (simp add: write_002_def client_of_def)
next
  case (Inr f)
  have "P f" using frame_mpid_packSegment [OF Inr assms(1,2)] assms(3) by simp
  then show ?thesis
    using Inr assms(4) by (simp add: write_002_def client_of_def list_all_socket_write)
qed

lemma quiet_onSegment_002:
  "quiet c \<Longrightarrow> quiet (client_of (b, onSegment_002 clk enc dec tn host prt seg c))"
  by (auto simp add: onSegment_002_def quiet_def client_of_def kill_def write_002_def Let_def
        split: sum.splits jsval.splits if_splits)

lemma quiet_step_002:
  "quiet (client_of st) \<Longrightarrow> quiet (client_of (step_002 clk enc dec tn host prt st ev))"
proof (cases st)
  case (Pair buf x)
  assume Q: "quiet (client_of st)"
  show ?thesis
  proof (cases x)
    case (Inl ec)
    then show ?thesis using Q Pair by (simp add: step_002_def)
  next
    case (Inr c)
    have Qc: "quiet c" using Q Pair Inr by (simp add: client_of_def)
    show ?thesis
    proof (cases "settled c \<noteq> Pending")
      case True
      then show ?thesis using Q Pair Inr by (simp add: step_002_def)
    next
      case False
      show ?thesis
      proof (cases ev)
        case Connect
        have "quiet (client_of (buf, write_002 clk MP_HANDSHAKE (enc propose_002) c))"
        proof (cases "handshakeDone (state c)")
          case True
          then show ?thesis
            by (auto simp add: quiet_def write_002_def client_of_def split: sum.splits)
        next
          case F: False
          then have "list_all (\<lambda>f. frame_mpid f = 0) (written (sock c))"
            using Qc by (simp add: quiet_def)
          then have "list_all (\<lambda>f. frame_mpid f = 0)
                       (written (sock (client_of (buf, write_002 clk MP_HANDSHAKE (enc propose_002) c))))"
            by (rule list_all_write_002 [rotated 3]) (simp_all add: MP_HANDSHAKE_def)
          then show ?thesis by (simp add: quiet_def)
        qed
        then show ?thesis using Pair Inr False Connect by (simp add: step_002_def)
      next
        case (Data chunk)
        have "quiet (client_of (MuxReader_loop (onSegment_002 clk enc dec tn host prt) (buf @ chunk) c))"
          using quiet_onSegment_002 Qc by (rule MuxReader_loop_invariant [where I = quiet])
        then show ?thesis
          using Pair Inr False Data by (simp add: step_002_def MuxReader_push_def)
      next
        case (SockError e)
        then show ?thesis
          using Pair Inr False Qc by (simp add: step_002_def client_of_def quiet_def kill_def)
      next
        case SockEnd
        then show ?thesis
          using Pair Inr False Qc by (simp add: step_002_def client_of_def quiet_def kill_def)
      next
        case Timeout
        then show ?thesis
          using Pair Inr False Qc by (simp add: step_002_def client_of_def quiet_def kill_def)
      qed
    qed
  qed
qed

lemma quiet_run_from_002:
  "quiet (client_of st) \<Longrightarrow> quiet (client_of (run_from_002 clk enc dec tn host prt st evs))"
  unfolding run_from_002_def
  by (induction evs arbitrary: st) (simp_all add: quiet_step_002)

lemma handshakeDone_only_by_accept:
  "\<not> handshakeDone (state c) \<Longrightarrow>
   handshakeDone (state (client_of (b, onSegment_002 clk enc dec tn host prt sg c))) \<Longrightarrow>
   miniProtocolId sg = MP_HANDSHAKE \<and> (\<exists>xs. dec (payload sg) = Inr (JArr xs) \<and> idx xs 0 = JNum 1)"
  by (auto simp add: onSegment_002_def client_of_def kill_def write_002_def Let_def
        split: sum.splits jsval.splits if_splits)

text \<open>The reader of part_001 while \<^verbatim>\<open>run()\<close> awaits the handshake reply.\<close>

lemma pump_hs_waiter:
  "ws = [hs_waiter] \<or> ws = [] \<Longrightarrow> list_all hs_only out \<Longrightarrow>
   MuxReader_pump ws buf out = (ws', b', out') \<Longrightarrow>
   (ws' = [hs_waiter] \<or> ws' = []) \<and> list_all hs_only out'"
proof (induction ws buf out rule: MuxReader_pump.induct)
  case (1 ws buf out)
  show ?case
  proof (cases "stalled buf")
    case True
    with "1.prems" show ?thesis by (simp add: pump_stalled_id)
  next
    case False
    then have A: "\<not> length buf < 8" and B: "\<not> length buf < 8 + hdr_len (readUInt32BE buf 4)"
      by (auto simp add: stalled_def)
    note IH1 = "1.IH"(1) [OF A refl refl refl refl refl B refl refl refl]
    note IH2 = "1.IH"(2) [OF A refl refl refl refl refl B refl refl refl]
    from "1.prems" IH1 IH2 show ?thesis
      by (auto simp add: pump_unfold [OF False] Let_def hs_only_def hs_waiter_def splice1_def
            split: option.splits if_splits)
  qed
qed

lemma feed_001_hs_waiter:
  "ws = [hs_waiter] \<or> ws = [] \<Longrightarrow> list_all hs_only out \<Longrightarrow>
   list_all hs_only (snd (snd (foldl on_data_001 (ws, buf, out) chunks)))"
proof (induction chunks arbitrary: ws buf out)
  case Nil
  then show ?case by simp
next
  case (Cons c cs)
  obtain ws' b' out' where L: "MuxReader_pump ws (buf @ c) out = (ws', b', out')"
    by (cases "MuxReader_pump ws (buf @ c) out") auto
  from pump_hs_waiter [OF Cons.prems L] Cons.IH [of ws' out' b'] show ?case
    by (simp add: on_data_001_def L)
qed

subsection \<open>Traffic before the accept\<close>

text \<open>Examples: the proposal of part_002 encoded, whole segments in an empty reader.\<close>

lemma encode_propose_002:
  "cbor_encode propose_002 =
     [0x82, 0x00, 0xA2, 0x0F, 0x84, 0x1A, 0x2D, 0x96, 0x4A, 0x09, 0xF4, 0x01, 0xF4,
      0x0E, 0x84, 0x1A, 0x2D, 0x96, 0x4A, 0x09, 0xF4, 0x01, 0xF4]"
  by (simp add: propose_002_def mkVData_def MAINNET_MAGIC_def cbor_hd_def u32be_def)

lemma decode_not_found_5:
  "cbor_decode [0x82, 0x05, 0x83, 0x01, 0x41, 0xAA, 0x02]
     = Inr (JArr [JNum 5, JArr [JNum 1, JBuf [0xAA], JNum 2]])"
  by (simp add: cbor_eval)

lemma toHex_AA: "toHex [0xAA] = ''aa''"
  by (simp add: toHex_def padStart_def toStringRadix_eval digit_char_def)

lemma packSegment_sdu: "length pl \<le> 0xffff \<Longrightarrow> packSegment 0 mp md pl = Inr (sdu md mp pl)"
  by (simp add: packSegment_def muxHeader_def sdu_def ToInt32_def)

lemma muxFrame_sdu:
  "length pl \<le> 0xffff \<Longrightarrow> 0 \<le> mp \<Longrightarrow> mp \<le> 0x7fff \<Longrightarrow> muxFrame mp md pl = Inr (sdu md mp pl)"
  by (simp add: muxFrame_def sdu_def)

lemma loop_sdu:
  assumes "0 \<le> p" "p \<le> 0x7fff" "m = 0 \<or> m = 1" "length pl \<le> 0xffff"
  shows "MuxReader_loop h (sdu m p pl) s =
           (case h \<lparr>transmissionTime = 0, mode = m, miniProtocolId = p, payload = pl\<rparr> s of
              Inl e \<Rightarrow> ([], Inl e) | Inr s' \<Rightarrow> ([], Inr s'))"
  unfolding sdu_def using assms by (rule loop_one_frame)

lemma connect_002:
  "step_002 clk0 cbor_encode dec tn host prt ([], Inr init_002) Connect =
     ([], Inr (init_002\<lparr>sock := socket0\<lparr>written := [sdu 0 0 (cbor_encode propose_002)]\<rparr>,
                        ticks := 1\<rparr>))"
proof -
  have "length (cbor_encode propose_002) \<le> 0xffff" by (simp add: encode_propose_002)
  then show ?thesis
    by (simp add: step_002_def init_002_def write_002_def packSegment_sdu
          MP_HANDSHAKE_def clk0_def socket_write_def socket0_def)
qed

lemma chainsync_before_accept_run:
  "connectAndFetchTip clk0 cbor_encode cbor_decode tn0 ''relay'' 3001
       [Connect, Data (sdu 1 2 [0x82, 0x05, 0x83, 0x01, 0x41, 0xAA, 0x02])]
     = ([], Inr \<lparr>state = \<lparr>handshakeDone = False, negotiatedVersion = JNull, peers = [],
                           gotTip = True\<rparr>,
                  sock = \<lparr>written = [sdu 0 0 (cbor_encode propose_002)], destroyed = False,
                          ended = True\<rparr>,
                  settled = Resolved \<lparr>r_host = ''relay'', r_port = 3001,
                     r_negotiatedVersion = JNull, peersDiscovered = [],
                     tip = JObj [(''slot'', JNum 1), (''hashHex'', JStr ''aa''),
                                 (''blockNo'', JNum 2)],
                     tipRaw = JArr [JNum 1, JBuf [0xAA], JNum 2]\<rparr>,
                  timer = False, ticks = 1\<rparr>)"
proof -
  let ?c1 = "init_002\<lparr>sock := socket0\<lparr>written := [sdu 0 0 (cbor_encode propose_002)]\<rparr>,
                        ticks := 1\<rparr>"
  have S2: "step_002 clk0 cbor_encode cbor_decode tn0 ''relay'' 3001 ([], Inr ?c1)
              (Data (sdu 1 2 [0x82, 0x05, 0x83, 0x01, 0x41, 0xAA, 0x02]))
            = ([], Inr \<lparr>state = \<lparr>handshakeDone = False, negotiatedVersion = JNull, peers = [],
                           gotTip = True\<rparr>,
                  sock = \<lparr>written = [sdu 0 0 (cbor_encode propose_002)], destroyed = False,
                          ended = True\<rparr>,
                  settled = Resolved \<lparr>r_host = ''relay'', r_port = 3001,
                     r_negotiatedVersion = JNull, peersDiscovered = [],
                     tip = JObj [(''slot'', JNum 1), (''hashHex'', JStr ''aa''),
                                 (''blockNo'', JNum 2)],
                     tipRaw = JArr [JNum 1, JBuf [0xAA], JNum 2]\<rparr>,
                  timer = False, ticks = 1\<rparr>)"
    by (simp add: step_002_def MuxReader_push_def loop_sdu onSegment_002_def
          decode_not_found_5 init_002_def socket0_def
          MP_HANDSHAKE_def MP_PEERSHARE_def MP_CHAINSYNC_def tip_of_002_def
          idx_def resolve_def prettyTip_def toHex_AA Let_def)
  show ?thesis
    by (simp only: connectAndFetchTip_def run_from_002_def foldl.simps connect_002 S2)
qed

lemma exit_chainsync_before_accept:
  "exit_code_002 (connectAndFetchTip clk0 cbor_encode cbor_decode tn0 ''relay'' 3001
       [Connect, Data (sdu 1 2 [0x82, 0x05, 0x83, 0x01, 0x41, 0xAA, 0x02])]) = Some 0"
  unfolding chainsync_before_accept_run by (simp add: exit_code_002_def)

lemma feed_001_chainsync_before_accept:
  "feed_001 [hs_waiter] [] [sdu 1 2 [0x82, 0x05, 0x83, 0x01, 0x41, 0xAA, 0x02]]
     = ([hs_waiter], [],
        [(\<lparr>transmissionTime = 0, mode = 1, miniProtocolId = 2,
           payload = [0x82, 0x05, 0x83, 0x01, 0x41, 0xAA, 0x02]\<rparr>, None)])"
proof -
  have "MuxReader_pump [hs_waiter] (sdu 1 2 [0x82, 0x05, 0x83, 0x01, 0x41, 0xAA, 0x02]) []
     = ([hs_waiter], [],
        [(\<lparr>transmissionTime = 0, mode = 1, miniProtocolId = 2,
           payload = [0x82, 0x05, 0x83, 0x01, 0x41, 0xAA, 0x02]\<rparr>, None)])"
    unfolding sdu_def
    by (subst pump_one_frame) (simp_all add: hs_waiter_def MP_HANDSHAKE_def)
  then show ?thesis by (simp add: feed_001_def on_data_001_def)
qed

text \<open>
  C7. \<^verbatim>\<open>connectAndFetchTip\<close> of part_002 acts on a ChainSync segment that arrives before
  any handshake reply: \<^verbatim>\<open>onSegment\<close> dispatches on the mini-protocol id alone, and
  \<^verbatim>\<open>state.handshakeDone\<close>, set at line 174, is read nowhere. Connected and given the segment
  \<open>[5, [1, h'AA', 2]]\<close> of mini-protocol 2, it ends the socket and resolves the promise
  with that tip, \<^verbatim>\<open>handshakeDone\<close> still false and no negotiated version, and the process
  exits with status 0. The reader of part_001 in the same place, with only the waiter for
  the handshake reply registered, drops the segment and goes on waiting.
\<close>

theorem chainsync_acted_on_before_accept:
  "settled (client_of (connectAndFetchTip clk0 cbor_encode cbor_decode tn0 ''relay'' 3001
       [Connect, Data (sdu 1 2 [0x82, 0x05, 0x83, 0x01, 0x41, 0xAA, 0x02])]))
     = Resolved \<lparr>r_host = ''relay'', r_port = 3001, r_negotiatedVersion = JNull,
                 peersDiscovered = [],
                 tip = JObj [(''slot'', JNum 1), (''hashHex'', JStr ''aa''), (''blockNo'', JNum 2)],
                 tipRaw = JArr [JNum 1, JBuf [0xAA], JNum 2]\<rparr> \<and>
   \<not> handshakeDone (state (client_of (connectAndFetchTip clk0 cbor_encode cbor_decode tn0
       ''relay'' 3001
       [Connect, Data (sdu 1 2 [0x82, 0x05, 0x83, 0x01, 0x41, 0xAA, 0x02])]))) \<and>
   exit_code_002 (connectAndFetchTip clk0 cbor_encode cbor_decode tn0 ''relay'' 3001
       [Connect, Data (sdu 1 2 [0x82, 0x05, 0x83, 0x01, 0x41, 0xAA, 0x02])]) = Some 0 \<and>
   feed_001 [hs_waiter] [] [sdu 1 2 [0x82, 0x05, 0x83, 0x01, 0x41, 0xAA, 0x02]]
     = ([hs_waiter], [],
        [(\<lparr>transmissionTime = 0, mode = 1, miniProtocolId = 2,
           payload = [0x82, 0x05, 0x83, 0x01, 0x41, 0xAA, 0x02]\<rparr>, None)])"
  using exit_chainsync_before_accept feed_001_chainsync_before_accept
  by (simp add: chainsync_before_accept_run client_of_def exit_code_002_def)

lemma decode_refuse_payload:
  "cbor_decode refuse_payload = Inr (JArr [JNum 2, JArr [JNum 0, JArr [JNum 15, JNum 14]]])"
  by (simp add: refuse_payload_def decode_refuse)

lemma decode_query_reply_payload:
  "cbor_decode query_reply_payload = Inr (JArr [JNum 3, JMap []])"
  by (simp add: query_reply_payload_def decode_query_reply)

lemma decode_accept_payload:
  "cbor_decode accept_payload = Inr (JArr [JNum 1, JNum 14, JArr []])"
  by (simp add: accept_payload_def cbor_eval)

lemma accept_002:
  "handshakeDone (state (client_of (b, onSegment_002 clk0 cbor_encode cbor_decode tn0 ''relay'' 3001
      \<lparr>transmissionTime = 0, mode = 1, miniProtocolId = 0, payload = accept_payload\<rparr> init_002)))"
  by (simp add: onSegment_002_def decode_accept_payload MP_HANDSHAKE_def MP_PEERSHARE_def
        MP_CHAINSYNC_def idx_def Let_def write_002_def packSegment_def cbor_hd_def
        client_of_def init_002_def)

text \<open>
  Outbound traffic is gated in both clients. No frame of a mini-protocol other than the
  handshake is written before an accept was received: \<^verbatim>\<open>run()\<close> of part_001 writes only
  handshake frames when the handshake reply is not an accept, and \<^verbatim>\<open>connectAndFetchTip\<close> of
  part_002 writes only handshake frames as long as \<^verbatim>\<open>state.handshakeDone\<close> is false, which
  only a segment of mini-protocol 0 carrying an array with tag 1 sets. In part_001 the
  reader, while only the waiter for the handshake reply is registered, gives that waiter
  nothing but a segment of mini-protocol 0 with the responder bit, and drops the rest.
\<close>

lemma no_write_before_accept:
  "(\<not> accepted_001 dec r \<longrightarrow>
      list_all (\<lambda>f. frame_mpid f = MP_HANDSHAKE) (written (fst (run_001 cfg enc dec tn r)))) \<and>
   list_all hs_only (snd (snd (feed_001 [hs_waiter] [] chunks))) \<and>
   (\<not> handshakeDone (state (client_of (connectAndFetchTip clk enc dec tn host prt evs))) \<longrightarrow>
      list_all (\<lambda>f. frame_mpid f = MP_HANDSHAKE)
        (written (sock (client_of (connectAndFetchTip clk enc dec tn host prt evs))))) \<and>
   (\<not> handshakeDone (state c) \<and>
    handshakeDone (state (client_of (b, onSegment_002 clk enc dec tn host prt sg c))) \<longrightarrow>
      miniProtocolId sg = MP_HANDSHAKE \<and>
      (\<exists>xs. dec (payload sg) = Inr (JArr xs) \<and> idx xs 0 = JNum 1))"
proof -
  have A: "list_all (\<lambda>f. frame_mpid f = MP_HANDSHAKE) (written (fst (run_001 cfg enc dec tn r)))"
    if "\<not> accepted_001 dec r"
    unfolding MP_HANDSHAKE_def
    using that by (intro run_001_no_accept) (auto simp add: accepted_001_def)
  have B: "list_all hs_only (snd (snd (feed_001 [hs_waiter] [] chunks)))"
    unfolding feed_001_def by (rule feed_001_hs_waiter) simp_all
  have "quiet (client_of ([], Inr init_002))"
    by (simp add: quiet_def client_of_def init_002_def socket0_def)
  then have "quiet (client_of (connectAndFetchTip clk enc dec tn host prt evs))"
    unfolding connectAndFetchTip_def by (rule quiet_run_from_002)
  then have C: "list_all (\<lambda>f. frame_mpid f = MP_HANDSHAKE)
        (written (sock (client_of (connectAndFetchTip clk enc dec tn host prt evs))))"
    if "\<not> handshakeDone (state (client_of (connectAndFetchTip clk enc dec tn host prt evs)))"
    using that by (simp add: quiet_def MP_HANDSHAKE_def)
  show ?thesis
    using A B C handshakeDone_only_by_accept [of c b clk enc dec tn host prt sg] by blast
qed

lemma no_write_before_accept_example:
  "\<not> accepted_001 cbor_decode (handshake_reply refuse_payload) \<and>
   list_all (\<lambda>f. frame_mpid f = MP_HANDSHAKE)
     (written (fst (run_001 example_cfg cbor_encode cbor_decode tn0
                      (handshake_reply refuse_payload)))) \<and>
   \<not> handshakeDone (state (client_of
        (connectAndFetchTip clk0 cbor_encode cbor_decode tn0 ''relay'' 3001 [Connect]))) \<and>
   list_all (\<lambda>f. frame_mpid f = MP_HANDSHAKE)
     (written (sock (client_of
        (connectAndFetchTip clk0 cbor_encode cbor_decode tn0 ''relay'' 3001 [Connect])))) \<and>
   \<not> handshakeDone (state init_002) \<and>
   handshakeDone (state (client_of ([], onSegment_002 clk0 cbor_encode cbor_decode tn0
      ''relay'' 3001
      \<lparr>transmissionTime = 0, mode = 1, miniProtocolId = 0, payload = accept_payload\<rparr>
      init_002))) \<and>
   (\<exists>xs. cbor_decode accept_payload = Inr (JArr xs) \<and> idx xs 0 = JNum 1)"
proof -
  have H1: "\<not> accepted_001 cbor_decode (handshake_reply refuse_payload)"
    by (simp add: accepted_001_def handshake_reply_def decodeCbor_def decode_refuse_payload
          idx_def)
  have H2: "\<not> handshakeDone (state (client_of
        (connectAndFetchTip clk0 cbor_encode cbor_decode tn0 ''relay'' 3001 [Connect])))"
  proof -
    have "connectAndFetchTip clk0 cbor_encode cbor_decode tn0 ''relay'' 3001 [Connect]
            = ([], Inr (init_002\<lparr>sock := socket0\<lparr>written := [sdu 0 0 (cbor_encode propose_002)]\<rparr>,
                                 ticks := 1\<rparr>))"
      by (simp only: connectAndFetchTip_def run_from_002_def foldl.simps connect_002)
    then show ?thesis by (simp add: client_of_def init_002_def)
  qed
  have H3: "\<not> handshakeDone (state init_002)" by (simp add: init_002_def)
  show ?thesis
    using H1 H2 H3 accept_002 [of "[]"]
      no_write_before_accept [where dec = cbor_decode and r = "handshake_reply refuse_payload"
        and cfg = example_cfg and enc = cbor_encode and tn = tn0 and clk = clk0
        and host = "''relay''" and prt = 3001 and evs = "[Connect]" and c = init_002
        and b = "[]" and chunks = "[]"
        and sg = "\<lparr>transmissionTime = 0, mode = 1, miniProtocolId = 0,
                    payload = accept_payload\<rparr>"]
    by (simp add: MP_HANDSHAKE_def)
qed

subsection \<open>Replies that are not an accept\<close>

lemma run_001_handshake_written:
  assumes "length (enc (handshakePropose cfg)) \<le> 65535"
  shows "write_frame socket0 (muxFrame MP_HANDSHAKE 0 (enc (handshakePropose cfg)))
           = Inr (socket0\<lparr>written := [sdu 0 0 (enc (handshakePropose cfg))]\<rparr>)"
  using assms
  by (simp add: write_frame_def muxFrame_sdu MP_HANDSHAKE_def socket_write_def socket0_def)

lemma run_001_rejected_handshake:
  assumes "connectR r = None" "length (enc (handshakePropose cfg)) \<le> 65535"
    and "hsResp r = Inr hs" "dec (payload hs) = Inr (JArr (JNum t # rest))" "t \<noteq> 1"
  shows "run_001 cfg enc dec tn r =
           (socket0\<lparr>written := [sdu 0 0 (enc (handshakePropose cfg))]\<rparr>,
            Inl (if t = 2 then HandshakeRefused (JArr (JNum t # rest))
                 else UnexpectedHandshakeTag (JNum t) (JArr (JNum t # rest))))"
  using assms
  by (simp add: run_001_def run_001_handshake_written decodeCbor_def idx_def Let_def)





subsection \<open>The lab client: frames and invariants\<close>

lemma read_u16be: "readUInt16BE (pre @ u16be w @ rest) (length pre) = w"
  unfolding readUInt16BE_def u16be_def
  apply (simp add: nth_append)
  apply (rule bit_word_eqI)
  apply (simp add: bit_simps)
  subgoal for n
    by (cases "n < 8"; auto)
  done

lemma length_u16be [simp]: "length (u16be w) = 2"
  by (simp add: u16be_def)

lemma read_gemini_header:
  "readUInt16BE (u32be a @ u16be p @ u16be l @ rest) 4 = p"
  "readUInt16BE (u32be a @ u16be p @ u16be l @ rest) 6 = l"
  using read_u16be [of "u32be a" p "u16be l @ rest"] read_u16be [of "u32be a @ u16be p" l rest]
  by simp_all


lemma gemini_loop_invariant:
  "(\<And>p pl g. I g \<Longrightarrow> I (h p pl g)) \<Longrightarrow> I g \<Longrightarrow> I (snd (gemini_loop h buf g))"
proof (induction h buf g rule: gemini_loop.induct)
  case (1 h buf g)
  show ?case
  proof (cases "gstalled buf")
    case True
    then show ?thesis using "1.prems"(2) by (simp add: gloop_stalled_id)
  next
    case False
    then have A: "\<not> length buf < 8" and B: "\<not> length buf < 8 + unat (readUInt16BE buf 6)"
      by (auto simp add: gstalled_def)
    have "I (h (uint (readUInt16BE buf 4)) (take (unat (readUInt16BE buf 6)) (drop 8 buf)) g)"
      using "1.prems" by blast
    then show ?thesis
      using "1.IH" [OF A refl refl B refl refl] "1.prems"(1)
      by (simp add: gloop_unfold [OF False])
  qed
qed

lemma gemini_frame_pid_createMuxFrame:
  "createMuxFrame now p pl = Inr f \<Longrightarrow> gemini_frame_pid f = p"
  by (auto simp add: createMuxFrame_def gemini_frame_pid_def Let_def read_gemini_header
        uint_word_of_int take_bit_int_eq_self split: if_splits)

lemma list_all_gemini_write:
  "list_all P (written (gsock g)) \<Longrightarrow> (\<And>f. gemini_frame_pid f = p \<Longrightarrow> P f) \<Longrightarrow>
   list_all P (written (gsock (snd (gemini_write clk p pl g))))"
  by (auto simp add: gemini_write_def Let_def list_all_socket_write
        dest: gemini_frame_pid_createMuxFrame split: sum.splits)

lemma list_all_handleHandshake:
  assumes "list_all P (written (gsock g))" "\<And>f. gemini_frame_pid f = 2 \<Longrightarrow> P f"
  shows "list_all P (written (gsock (snd (handleHandshake clk cdec pl g))))"
proof -
  have "list_all P (written (gsock (snd (gemini_write clk 2 bs (glogs ls g)))))" for bs ls
    using assms by (intro list_all_gemini_write) (simp_all add: glogs_def)
  then show ?thesis
    using assms(1)
    by (simp add: handleHandshake_def glogs_def split: sum.splits option.splits)
qed

lemma list_all_handleChainSync:
  "list_all P (written (gsock g)) \<Longrightarrow>
   list_all P (written (gsock (snd (handleChainSync cdec pl g))))"
  by (simp add: handleChainSync_def glogs_def Let_def
        split: sum.splits option.splits jsval.splits)

lemma list_all_gemini_dispatch:
  assumes "list_all P (written (gsock g))" "\<And>f. gemini_frame_pid f = 2 \<Longrightarrow> P f"
  shows "list_all P (written (gsock (gemini_dispatch clk cdec p pl g)))"
  using assms list_all_handleHandshake [OF assms, of clk cdec pl]
    list_all_handleChainSync [OF assms(1), of cdec pl]
  by (auto simp add: gemini_dispatch_def glogs_def split: prod.splits)

lemma list_all_gemini_step:
  assumes "list_all P (written (gsock (snd st)))" "\<And>f. gemini_frame_pid f = 2 \<Longrightarrow> P f"
    "\<And>f. gemini_frame_pid f = 0 \<Longrightarrow> P f"
  shows "list_all P (written (gsock (snd (gemini_step clk cdec st ev))))"
proof (cases st)
  case (Pair buffer g)
  have G: "list_all P (written (gsock g))" using assms(1) Pair by simp
  show ?thesis
  proof (cases "gcrashed g")
    case True
    then show ?thesis using G Pair by (simp add: gemini_step_def)
  next
    case False
    show ?thesis
    proof (cases ev)
      case GConnect
      have "list_all P (written (gsock (snd (gemini_write clk 0 buildHandshakePayload (glogs ls g)))))"
        for ls
        using G assms(3) by (intro list_all_gemini_write) (simp_all add: glogs_def)
      then show ?thesis
        using Pair False GConnect
        by (simp add: gemini_step_def split: prod.splits) (metis snd_conv)
    next
      case (GData chunk)
      have "list_all P (written (gsock (snd (gemini_loop (gemini_dispatch clk cdec) (buffer @ chunk) g))))"
        using list_all_gemini_dispatch [OF _ assms(2)] G
        by (rule gemini_loop_invariant [where I = "\<lambda>g. list_all P (written (gsock g))"])
      then show ?thesis
        using Pair False GData by (simp add: gemini_step_def gemini_on_data_def)
    next
      case GError
      then show ?thesis using Pair False G by (simp add: gemini_step_def glogs_def)
    next
      case GClose
      then show ?thesis using Pair False G by (simp add: gemini_step_def glogs_def)
    qed
  qed
qed

lemma list_all_gemini_run:
  assumes "\<And>f. gemini_frame_pid f = 2 \<Longrightarrow> P f" "\<And>f. gemini_frame_pid f = 0 \<Longrightarrow> P f"
  shows "list_all P (written (gsock (snd (gemini_run clk cdec evs))))"
proof -
  have "list_all P (written (gsock (snd st))) \<Longrightarrow>
        list_all P (written (gsock (snd (foldl (gemini_step clk cdec) st evs))))" for st
    by (induction evs arbitrary: st) (simp_all add: list_all_gemini_step assms)
  then show ?thesis
    by (simp add: gemini_run_def gemini_init_def socket0_def)
qed

subsection \<open>Peer sharing\<close>

lemma version_data_of_handshakePropose:
  "version_data_of (handshakePropose cfg) =
     [JArr [JNum (NETWORK_MAGIC cfg mod 2 ^ 32), JBool False,
            JNum (if WANT_PEER_SHARING cfg then 1 else 0), JBool False],
      JArr [JNum (NETWORK_MAGIC cfg mod 2 ^ 32), JBool False,
            JNum (if WANT_PEER_SHARING cfg then 1 else 0), JBool False]]"
  by (simp add: version_data_of_def table_values_def handshakePropose_def Let_def)

text \<open>
  C8. When a version data \<^verbatim>\<open>run()\<close> of part_001 proposes, for whichever entry of its table,
  carries peerSharing = 0, no frame of mini-protocol 10 is written in that run, whatever
  the peer replies. The lab client, whose proposal carries 0 for version 13, never writes
  a frame whose protocol field is 10, whatever it receives. (part_002 always proposes 1.)
\<close>

theorem no_share_request_without_peer_sharing:
  "(JArr [m, d, JNum 0, q] \<in> set (version_data_of (handshakePropose cfg)) \<longrightarrow>
      list_all (\<lambda>f. frame_mpid f \<noteq> MP_PEERSHARE) (written (fst (run_001 cfg enc dec tn r)))) \<and>
   list_all (\<lambda>f. gemini_frame_pid f \<noteq> MP_PEERSHARE)
     (written (gsock (snd (gemini_run clk cdec evs))))"
proof -
  have "list_all (\<lambda>f. frame_mpid f \<noteq> MP_PEERSHARE) (written (fst (run_001 cfg enc dec tn r)))"
    if "JArr [m, d, JNum 0, q] \<in> set (version_data_of (handshakePropose cfg))"
  proof -
    have "\<not> WANT_PEER_SHARING cfg"
      using that by (auto simp add: version_data_of_handshakePropose split: if_splits)
    then show ?thesis
      by (intro list_all_run_001) (simp_all add: MP_PEERSHARE_def)
  qed
  moreover have "list_all (\<lambda>f. gemini_frame_pid f \<noteq> MP_PEERSHARE)
     (written (gsock (snd (gemini_run clk cdec evs))))"
    by (intro list_all_gemini_run) (simp_all add: MP_PEERSHARE_def)
  ultimately show ?thesis by blast
qed

theorem no_share_request_without_peer_sharing_witness:
  "JArr [JNum 764824073, JBool False, JNum 0, JBool False]
     \<in> set (version_data_of (handshakePropose example_cfg)) \<and>
   list_all (\<lambda>f. frame_mpid f \<noteq> MP_PEERSHARE)
     (written (fst (run_001 example_cfg cbor_encode cbor_decode tn0
                      (handshake_reply accept_payload))))"
proof -
  have H: "JArr [JNum 764824073, JBool False, JNum 0, JBool False]
     \<in> set (version_data_of (handshakePropose example_cfg))"
    by (simp add: version_data_of_handshakePropose example_cfg_def)
  show ?thesis
    using H no_share_request_without_peer_sharing [where cfg = example_cfg
        and m = "JNum 764824073" and d = "JBool False" and q = "JBool False"
        and enc = cbor_encode and dec = cbor_decode and tn = tn0
        and r = "handshake_reply accept_payload"]
    by simp
qed

subsection \<open>The proposal\<close>

lemma encode_example_propose:
  "cbor_encode (handshakePropose example_cfg) =
     [0x82, 0x00, 0xA2, 0x62, 0x31, 0x34, 0x84, 0x1A, 0x2D, 0x96, 0x4A, 0x09, 0xF4, 0x00, 0xF4,
      0x62, 0x31, 0x35, 0x84, 0x1A, 0x2D, 0x96, 0x4A, 0x09, 0xF4, 0x00, 0xF4]"
  by (simp add: handshakePropose_def example_cfg_def cbor_hd_def cbor_text_def u32be_def Let_def)

lemma prefix_peer_sharing_001:
  "\<exists>ws. written (fst (peer_sharing_001 cfg enc dec tn ps s)) = written s @ ws"
  by (auto simp add: peer_sharing_001_def write_frame_def socket_write_def Let_def
        split: sum.splits jsval.splits)

lemma prefix_after_handshake_001:
  "\<exists>ws. written (fst (after_handshake_001 cfg enc dec tn r s1 xs)) = written s1 @ ws"
proof (cases "write_frame s1 (muxFrame MP_CHAINSYNC 0 (enc (JArr [JNum 4, JArr []])))")
  case (Inl e)
  then show ?thesis by (simp add: after_handshake_001_def)
next
  case (Inr s2)
  obtain w2 where W2: "written s2 = written s1 @ w2"
    using Inr by (auto simp add: write_frame_def socket_write_def split: sum.splits if_splits)
  have "\<exists>ws. written s3 = written s1 @ ws"
    if "peer_sharing_001 cfg enc dec tn ps s2 = (s3, pp)" for ps s3 pp
    using prefix_peer_sharing_001 [of cfg enc dec tn ps s2] that W2 by auto
  then show ?thesis
    using Inr W2
    by (auto simp add: after_handshake_001_def Let_def split: sum.splits option.splits prod.splits)
qed

lemma first_write_run_001:
  "take 1 (written (fst (run_001 cfg enc dec tn r))) =
     (case connectR r of
        Some e \<Rightarrow> []
      | None \<Rightarrow>
          (case muxFrame MP_HANDSHAKE 0 (enc (handshakePropose cfg)) of
             Inl e \<Rightarrow> []
           | Inr f \<Rightarrow> [f]))"
proof (cases "connectR r")
  case (Some e)
  then show ?thesis by (simp add: run_001_def socket0_def)
next
  case None
  show ?thesis
  proof (cases "muxFrame MP_HANDSHAKE 0 (enc (handshakePropose cfg))")
    case (Inl e)
    with None show ?thesis by (simp add: run_001_def write_frame_def socket0_def Let_def)
  next
    case (Inr f)
    let ?s1 = "socket_write socket0 f"
    have W: "written ?s1 = [f]" by (simp add: socket_write_def socket0_def)
    have "\<exists>ws. written (fst (after_handshake_001 cfg enc dec tn r ?s1 xs)) = [f] @ ws" for xs
      using prefix_after_handshake_001 [of cfg enc dec tn r ?s1 xs] W by simp
    then have T: "take 1 (written (fst (after_handshake_001 cfg enc dec tn r ?s1 xs))) = [f]"
      for xs
      by (metis append_Cons append_Nil take_Suc_Cons take_0 One_nat_def)
    show ?thesis
      using None Inr W T
      by (simp add: run_001_def write_frame_def Let_def split: sum.splits jsval.splits)
  qed
qed

lemma decode_buildHandshakePayload:
  "cbor_decode buildHandshakePayload =
     Inr (JArr [JNum 0, JMap [(JNum 10, JArr [JNum 764824073, JBool True]),
                              (JNum 13, JArr [JNum 764824073, JBool True, JNum 0, JBool False])]])"
  by (simp add: buildHandshakePayload_def v10Data_def v13Data_def cbor_eval)

lemma proposed_propose_002:
  "proposed propose_002 14 = Some (versionData MAINNET_MAGIC True)"
  "proposed propose_002 15 = Some (versionData MAINNET_MAGIC True)"
  by (simp_all add: proposed_def propose_002_def version_entry_def mkVData_def versionData_def)

lemma connect_written_002:
  "written (sock (client_of (connectAndFetchTip clk enc dec tn host prt [Connect]))) =
     (case packSegment (clk 0) MP_HANDSHAKE 0 (enc propose_002) of
        Inl e \<Rightarrow> []
      | Inr f \<Rightarrow> [f])"
  by (simp add: connectAndFetchTip_def run_from_002_def step_002_def init_002_def
        write_002_def packSegment_def client_of_def socket_write_def socket0_def Let_def)

text \<open>
  The table of part_001 is an object: it has the property names \<^verbatim>\<open>"14"\<close> and \<^verbatim>\<open>"15"\<close> and no
  integer key.
\<close>

lemma handshakePropose_keys: "proposed (handshakePropose cfg) v = None"
  by (simp add: proposed_def version_entry_def handshakePropose_def Let_def)

text \<open>
  Under the encoding of RFC 8949 written out in the CBOR section, the \<^verbatim>\<open>Map\<close> of part_002
  comes back from its bytes with its integer keys, and the object of part_001 as a map
  whose keys are the text strings \<^verbatim>\<open>"14"\<close> and \<^verbatim>\<open>"15"\<close>.
\<close>

lemma decode_encode_propose_002:
  "cbor_decode (cbor_encode propose_002) = Inr propose_002"
  unfolding encode_propose_002
  by (simp add: cbor_eval propose_002_def mkVData_def MAINNET_MAGIC_def)

lemma chars_14_15:
  "char_of (49 :: nat) = CHR ''1''" "char_of (52 :: nat) = CHR ''4''"
  "char_of (53 :: nat) = CHR ''5''"
  by (simp_all add: char_of_def bit_Suc_0_iff)

lemma decode_encode_example_propose:
  "cbor_decode (cbor_encode (handshakePropose example_cfg)) =
     Inr (JArr [JNum 0,
                JMap [(JStr ''14'', JArr [JNum 764824073, JBool False, JNum 0, JBool False]),
                      (JStr ''15'', JArr [JNum 764824073, JBool False, JNum 0, JBool False])]])"
  unfolding encode_example_propose
  by (simp add: cbor_eval chars_14_15)

text \<open>
  C3, as the code has it. The message \<^verbatim>\<open>connectAndFetchTip\<close> of part_002 encodes on connect
  is \<open>[0, table]\<close> with a table whose integer keys 14 and 15 both hold (mainnet magic,
  false, 1, false), this client always asking for peer sharing, and the only thing it
  writes on connect is the handshake segment carrying the encoder's output for that
  message (nothing when \<^verbatim>\<open>packSegment\<close> throws). \<^verbatim>\<open>run()\<close> of part_001 encodes a message
  \<open>[0, table]\<close> whose two entries both carry (networkMagic as an unsigned 32-bit number,
  false, peerSharing, false), peerSharing being 1 exactly when peer sharing is wanted,
  and the first thing it writes once connected is the handshake frame carrying the
  encoder's output for that message. The lab client instead sends the bytes of
  \<open>[0, {10: [magic, true], 13: [magic, true, 0, false]}]\<close>.
\<close>

theorem first_message_proposes:
  "proposed propose_002 14 = Some (versionData MAINNET_MAGIC True) \<and>
   proposed propose_002 15 = Some (versionData MAINNET_MAGIC True) \<and>
   written (sock (client_of (connectAndFetchTip clk enc dec tn host prt [Connect]))) =
     (case packSegment (clk 0) MP_HANDSHAKE 0 (enc propose_002) of
        Inl e \<Rightarrow> []
      | Inr f \<Rightarrow> [f]) \<and>
   version_data_of (handshakePropose cfg) =
     [versionData (NETWORK_MAGIC cfg mod 2 ^ 32) (WANT_PEER_SHARING cfg),
      versionData (NETWORK_MAGIC cfg mod 2 ^ 32) (WANT_PEER_SHARING cfg)] \<and>
   take 1 (written (fst (run_001 cfg enc dec tn r))) =
     (case connectR r of
        Some e \<Rightarrow> []
      | None \<Rightarrow>
          (case muxFrame MP_HANDSHAKE 0 (enc (handshakePropose cfg)) of
             Inl e \<Rightarrow> []
           | Inr f \<Rightarrow> [f])) \<and>
   cbor_decode buildHandshakePayload =
     Inr (JArr [JNum 0, JMap [(JNum 10, JArr [JNum MAINNET_MAGIC, JBool True]),
                              (JNum 13, JArr [JNum MAINNET_MAGIC, JBool True, JNum 0,
                                              JBool False])]])"
proof -
  have A: "version_data_of (handshakePropose cfg) =
     [versionData (NETWORK_MAGIC cfg mod 2 ^ 32) (WANT_PEER_SHARING cfg),
      versionData (NETWORK_MAGIC cfg mod 2 ^ 32) (WANT_PEER_SHARING cfg)]"
    by (simp add: version_data_of_handshakePropose versionData_def)
  have B: "cbor_decode buildHandshakePayload =
     Inr (JArr [JNum 0, JMap [(JNum 10, JArr [JNum MAINNET_MAGIC, JBool True]),
                              (JNum 13, JArr [JNum MAINNET_MAGIC, JBool True, JNum 0,
                                              JBool False])]])"
    by (simp add: decode_buildHandshakePayload MAINNET_MAGIC_def)
  show ?thesis
    using A B proposed_propose_002 connect_written_002 [of clk enc dec tn host prt]
      first_write_run_001 [of cfg enc dec tn r]
    by (simp only: simp_thms)
qed

text \<open>
  The proposal of the lab client has no entry for version 14 and none for 15.
\<close>

theorem lab_client_proposal_counterexample:
  "cbor_decode buildHandshakePayload =
     Inr (JArr [JNum 0, JMap [(JNum 10, JArr [JNum 764824073, JBool True]),
                              (JNum 13, JArr [JNum 764824073, JBool True, JNum 0, JBool False])]]) \<and>
   proposed (JArr [JNum 0, JMap [(JNum 10, JArr [JNum 764824073, JBool True]),
                              (JNum 13, JArr [JNum 764824073, JBool True, JNum 0, JBool False])]])
     14 = None \<and>
   proposed (JArr [JNum 0, JMap [(JNum 10, JArr [JNum 764824073, JBool True]),
                              (JNum 13, JArr [JNum 764824073, JBool True, JNum 0, JBool False])]])
     15 = None"
  by (simp add: decode_buildHandshakePayload proposed_def version_entry_def)

subsection \<open>Query reply\<close>

text \<open>
  C5, as the code has it. In \<^verbatim>\<open>run()\<close> of part_001 a handshake reply with tag 3 ends the
  run with the error "unexpected handshake response tag", exit status 1, nothing but the
  proposal written and no negotiated version. In \<^verbatim>\<open>connectAndFetchTip\<close> of part_002 the
  same reply changes nothing at all: \<^verbatim>\<open>onSegment\<close> returns with the client as it was.
\<close>

theorem query_reply_handling:
  "(connectR r = None \<and> length (enc (handshakePropose cfg)) \<le> 65535 \<and> hsResp r = Inr hs \<and>
    dec (payload hs) = Inr (JArr (JNum 3 # rest)) \<longrightarrow>
      snd (run_001 cfg enc dec tn r)
        = Inl (UnexpectedHandshakeTag (JNum 3) (JArr (JNum 3 # rest))) \<and>
      exit_code_001 (run_001 cfg enc dec tn r) = 1 \<and>
      map Inr (written (fst (run_001 cfg enc dec tn r)))
        = [muxFrame MP_HANDSHAKE 0 (enc (handshakePropose cfg))]) \<and>
   (miniProtocolId sg = MP_HANDSHAKE \<and> dec (payload sg) = Inr (JArr (JNum 3 # rest)) \<longrightarrow>
      onSegment_002 clk enc dec tn host prt sg c = Inr c)"
proof -
  have A: "run_001 cfg enc dec tn r =
           (socket0\<lparr>written := [sdu 0 0 (enc (handshakePropose cfg))]\<rparr>,
            Inl (UnexpectedHandshakeTag (JNum 3) (JArr (JNum 3 # rest))))"
    if "connectR r = None" "length (enc (handshakePropose cfg)) \<le> 65535" "hsResp r = Inr hs"
      "dec (payload hs) = Inr (JArr (JNum 3 # rest))"
    using that run_001_rejected_handshake [where r = r and enc = enc and cfg = cfg
        and hs = hs and dec = dec and t = 3 and rest = rest and tn = tn]
    by simp
  have B: "onSegment_002 clk enc dec tn host prt sg c = Inr c"
    if "miniProtocolId sg = MP_HANDSHAKE" "dec (payload sg) = Inr (JArr (JNum 3 # rest))"
    using that by (simp add: onSegment_002_def idx_def)
  show ?thesis
    using A B by (auto simp add: exit_code_001_def muxFrame_sdu MP_HANDSHAKE_def)
qed

theorem query_reply_handling_witness:
  "snd (run_001 example_cfg cbor_encode cbor_decode tn0 (handshake_reply query_reply_payload))
     = Inl (UnexpectedHandshakeTag (JNum 3) (JArr [JNum 3, JMap []])) \<and>
   exit_code_001 (run_001 example_cfg cbor_encode cbor_decode tn0
                    (handshake_reply query_reply_payload)) = 1 \<and>
   onSegment_002 clk0 cbor_encode cbor_decode tn0 ''relay'' 3001
       \<lparr>transmissionTime = 0, mode = 1, miniProtocolId = 0, payload = query_reply_payload\<rparr>
       init_002 = Inr init_002"
proof -
  have H: "connectR (handshake_reply query_reply_payload) = None"
    "length (cbor_encode (handshakePropose example_cfg)) \<le> 65535"
    "hsResp (handshake_reply query_reply_payload)
       = Inr \<lparr>transmissionTime = 0, mode = 1, miniProtocolId = 0, payload = query_reply_payload\<rparr>"
    by (simp_all add: handshake_reply_def encode_example_propose)
  show ?thesis
    using H decode_query_reply_payload
      query_reply_handling [where r = "handshake_reply query_reply_payload"
        and cfg = example_cfg and enc = cbor_encode and dec = cbor_decode and tn = tn0
        and hs = "\<lparr>transmissionTime = 0, mode = 1, miniProtocolId = 0,
                    payload = query_reply_payload\<rparr>"
        and sg = "\<lparr>transmissionTime = 0, mode = 1, miniProtocolId = 0,
                    payload = query_reply_payload\<rparr>"
        and rest = "[JMap []]" and clk = clk0 and host = "''relay''" and prt = 3001
        and c = init_002]
    by (simp add: MP_HANDSHAKE_def)
qed

text \<open>
  After the proposal, the peer of \<^verbatim>\<open>connectAndFetchTip\<close> sends \<open>[3, {}]\<close>: the promise
  stays pending and the process keeps running; an accept \<open>[1, 14, []]\<close> sent after it is
  still taken, and version 14 is negotiated.
\<close>

theorem query_reply_ignored_counterexample:
  "exit_code_002 (connectAndFetchTip clk0 cbor_encode cbor_decode tn0 ''relay'' 3001
       [Connect, Data (sdu 1 0 query_reply_payload)]) = None \<and>
   connectAndFetchTip clk0 cbor_encode cbor_decode tn0 ''relay'' 3001
       [Connect, Data (sdu 1 0 query_reply_payload)]
     = connectAndFetchTip clk0 cbor_encode cbor_decode tn0 ''relay'' 3001 [Connect] \<and>
   negotiatedVersion (state (client_of
     (connectAndFetchTip clk0 cbor_encode cbor_decode tn0 ''relay'' 3001
       [Connect, Data (sdu 1 0 query_reply_payload), Data (sdu 1 0 accept_payload)])))
     = JNum 14"
proof -
  let ?c1 = "init_002\<lparr>sock := socket0\<lparr>written := [sdu 0 0 (cbor_encode propose_002)]\<rparr>,
                        ticks := 1\<rparr>"
  let ?step = "step_002 clk0 cbor_encode cbor_decode tn0 ''relay'' 3001"
  have S2: "?step ([], Inr ?c1) (Data (sdu 1 0 query_reply_payload)) = ([], Inr ?c1)"
    by (simp add: step_002_def MuxReader_push_def loop_sdu onSegment_002_def
          decode_query_reply_payload init_002_def query_reply_payload_def [THEN arg_cong, of length]
          MP_HANDSHAKE_def idx_def)
  have S3: "negotiatedVersion (state (client_of
              (?step ([], Inr ?c1) (Data (sdu 1 0 accept_payload))))) = JNum 14"
    by (simp add: step_002_def MuxReader_push_def loop_sdu onSegment_002_def
          decode_accept_payload init_002_def accept_payload_def [THEN arg_cong, of length]
          MP_HANDSHAKE_def idx_def Let_def write_002_def packSegment_def cbor_hd_def
          client_of_def)
  have R1: "connectAndFetchTip clk0 cbor_encode cbor_decode tn0 ''relay'' 3001 [Connect]
              = ([], Inr ?c1)"
    by (simp only: connectAndFetchTip_def run_from_002_def foldl.simps connect_002)
  have R2: "connectAndFetchTip clk0 cbor_encode cbor_decode tn0 ''relay'' 3001
              [Connect, Data (sdu 1 0 query_reply_payload)] = ([], Inr ?c1)"
    by (simp only: connectAndFetchTip_def run_from_002_def foldl.simps connect_002 S2)
  have R3: "connectAndFetchTip clk0 cbor_encode cbor_decode tn0 ''relay'' 3001
              [Connect, Data (sdu 1 0 query_reply_payload), Data (sdu 1 0 accept_payload)]
            = ?step ([], Inr ?c1) (Data (sdu 1 0 accept_payload))"
    by (simp only: connectAndFetchTip_def run_from_002_def foldl.simps connect_002 S2)
  have E: "exit_code_002 ([], Inr ?c1) = None"
    by (simp add: exit_code_002_def init_002_def)
  show ?thesis
    by (simp only: R1 R2 R3 S3 E)
qed

subsection \<open>Refusal\<close>












subsection \<open>Chunks and the awaits of \<^verbatim>\<open>run()\<close>\<close>

text \<open>
  The same bytes, an accept \<open>[1, 14, []]\<close> followed by the ChainSync reply
  \<open>[6, [1, h'AA', 2]]\<close>, reach \<^verbatim>\<open>run()\<close> of part_001 in one chunk or in two.
\<close>

lemma pump_sdu:
  assumes "0 \<le> p" "p \<le> 0x7fff" "m = 0 \<or> m = 1" "length pl \<le> 0xffff"
  shows "MuxReader_pump ws (sdu m p pl) out =
           (let seg = \<lparr>transmissionTime = 0, mode = m, miniProtocolId = p, payload = pl\<rparr>
            in case findIndex (\<lambda>w. filterW w p m) ws of
                 Some i \<Rightarrow> (splice1 ws i, [], out @ [(seg, Some (promiseW (ws ! i)))])
               | None \<Rightarrow> (ws, [], out @ [(seg, None)]))"
  unfolding sdu_def using assms by (rule pump_one_frame)

lemma pump_empty: "MuxReader_pump ws [] out = (ws, [], out)"
  by (simp add: pump_stalled_id stalled_def)

lemma await_hs_one:
  "await_001 hs_waiter ([], [], [])
     [sdu 1 0 accept_payload @ sdu 1 2 [0x82, 0x06, 0x83, 0x01, 0x41, 0xAA, 0x02]]
   = (Inr \<lparr>transmissionTime = 0, mode = 1, miniProtocolId = 0, payload = accept_payload\<rparr>,
      ([], [],
       [(\<lparr>transmissionTime = 0, mode = 1, miniProtocolId = 0, payload = accept_payload\<rparr>, Some 0),
        (\<lparr>transmissionTime = 0, mode = 1, miniProtocolId = 2,
          payload = [0x82, 0x06, 0x83, 0x01, 0x41, 0xAA, 0x02]\<rparr>, None)]),
      [])"
proof -
  have P: "MuxReader_pump [hs_waiter]
             (sdu 1 0 accept_payload @ sdu 1 2 [0x82, 0x06, 0x83, 0x01, 0x41, 0xAA, 0x02]) []
     = ([], [],
       [(\<lparr>transmissionTime = 0, mode = 1, miniProtocolId = 0, payload = accept_payload\<rparr>, Some 0),
        (\<lparr>transmissionTime = 0, mode = 1, miniProtocolId = 2,
          payload = [0x82, 0x06, 0x83, 0x01, 0x41, 0xAA, 0x02]\<rparr>, None)])"
    by (subst pump_append)
      (simp add: pump_sdu accept_payload_def hs_waiter_def MP_HANDSHAKE_def splice1_def)
  show ?thesis
    by (simp add: await_001_def readFrame_def pump_empty resolved_with_def on_data_001_def P)
       (simp add: hs_waiter_def)
qed

lemma await_hs_two:
  "await_001 hs_waiter ([], [], [])
     [sdu 1 0 accept_payload, sdu 1 2 [0x82, 0x06, 0x83, 0x01, 0x41, 0xAA, 0x02]]
   = (Inr \<lparr>transmissionTime = 0, mode = 1, miniProtocolId = 0, payload = accept_payload\<rparr>,
      ([], [],
       [(\<lparr>transmissionTime = 0, mode = 1, miniProtocolId = 0, payload = accept_payload\<rparr>, Some 0)]),
      [sdu 1 2 [0x82, 0x06, 0x83, 0x01, 0x41, 0xAA, 0x02]])"
  by (simp add: await_001_def readFrame_def pump_empty resolved_with_def on_data_001_def
        pump_sdu accept_payload_def hs_waiter_def MP_HANDSHAKE_def splice1_def)

lemma await_cs_one:
  "await_001 cs_waiter ([], [],
       [(\<lparr>transmissionTime = 0, mode = 1, miniProtocolId = 0, payload = accept_payload\<rparr>, Some 0),
        (\<lparr>transmissionTime = 0, mode = 1, miniProtocolId = 2,
          payload = [0x82, 0x06, 0x83, 0x01, 0x41, 0xAA, 0x02]\<rparr>, None)]) []
   = (Inl FrameTimeout,
      ([cs_waiter], [],
       [(\<lparr>transmissionTime = 0, mode = 1, miniProtocolId = 0, payload = accept_payload\<rparr>, Some 0),
        (\<lparr>transmissionTime = 0, mode = 1, miniProtocolId = 2,
          payload = [0x82, 0x06, 0x83, 0x01, 0x41, 0xAA, 0x02]\<rparr>, None)]),
      [])"
  by (simp add: await_001_def readFrame_def pump_empty resolved_with_def cs_waiter_def)

lemma await_cs_two:
  "await_001 cs_waiter ([], [],
       [(\<lparr>transmissionTime = 0, mode = 1, miniProtocolId = 0, payload = accept_payload\<rparr>, Some 0)])
     [sdu 1 2 [0x82, 0x06, 0x83, 0x01, 0x41, 0xAA, 0x02]]
   = (Inr \<lparr>transmissionTime = 0, mode = 1, miniProtocolId = 2,
            payload = [0x82, 0x06, 0x83, 0x01, 0x41, 0xAA, 0x02]\<rparr>,
      ([], [],
       [(\<lparr>transmissionTime = 0, mode = 1, miniProtocolId = 0, payload = accept_payload\<rparr>, Some 0),
        (\<lparr>transmissionTime = 0, mode = 1, miniProtocolId = 2,
          payload = [0x82, 0x06, 0x83, 0x01, 0x41, 0xAA, 0x02]\<rparr>, Some 1)]),
      [])"
  by (simp add: await_001_def readFrame_def pump_empty resolved_with_def on_data_001_def
        pump_sdu cs_waiter_def MP_CHAINSYNC_def splice1_def)

lemma replies_one_chunk:
  "replies_of_chunks
     [sdu 1 0 accept_payload @ sdu 1 2 [0x82, 0x06, 0x83, 0x01, 0x41, 0xAA, 0x02]]
   = \<lparr>connectR = None,
      hsResp = Inr \<lparr>transmissionTime = 0, mode = 1, miniProtocolId = 0,
                    payload = accept_payload\<rparr>,
      csResp = Inl FrameTimeout, psResp = Inl FrameTimeout\<rparr>"
proof -
  have PS: "await_001 ps_waiter ([cs_waiter], [],
       [(\<lparr>transmissionTime = 0, mode = 1, miniProtocolId = 0, payload = accept_payload\<rparr>, Some 0),
        (\<lparr>transmissionTime = 0, mode = 1, miniProtocolId = 2,
          payload = [0x82, 0x06, 0x83, 0x01, 0x41, 0xAA, 0x02]\<rparr>, None)]) []
     = (Inl FrameTimeout,
        ([cs_waiter, ps_waiter], [],
         [(\<lparr>transmissionTime = 0, mode = 1, miniProtocolId = 0, payload = accept_payload\<rparr>, Some 0),
          (\<lparr>transmissionTime = 0, mode = 1, miniProtocolId = 2,
            payload = [0x82, 0x06, 0x83, 0x01, 0x41, 0xAA, 0x02]\<rparr>, None)]),
        [])"
    by (simp add: await_001_def readFrame_def pump_empty resolved_with_def ps_waiter_def)
  show ?thesis
    by (simp only: replies_of_chunks_def await_hs_one await_cs_one PS prod.case)
qed

lemma replies_two_chunks:
  "replies_of_chunks
     [sdu 1 0 accept_payload, sdu 1 2 [0x82, 0x06, 0x83, 0x01, 0x41, 0xAA, 0x02]]
   = \<lparr>connectR = None,
      hsResp = Inr \<lparr>transmissionTime = 0, mode = 1, miniProtocolId = 0,
                    payload = accept_payload\<rparr>,
      csResp = Inr \<lparr>transmissionTime = 0, mode = 1, miniProtocolId = 2,
                    payload = [0x82, 0x06, 0x83, 0x01, 0x41, 0xAA, 0x02]\<rparr>,
      psResp = Inl FrameTimeout\<rparr>"
proof -
  have PS: "await_001 ps_waiter ([], [],
       [(\<lparr>transmissionTime = 0, mode = 1, miniProtocolId = 0, payload = accept_payload\<rparr>, Some 0),
        (\<lparr>transmissionTime = 0, mode = 1, miniProtocolId = 2,
          payload = [0x82, 0x06, 0x83, 0x01, 0x41, 0xAA, 0x02]\<rparr>, Some 1)]) []
     = (Inl FrameTimeout,
        ([ps_waiter], [],
         [(\<lparr>transmissionTime = 0, mode = 1, miniProtocolId = 0, payload = accept_payload\<rparr>, Some 0),
          (\<lparr>transmissionTime = 0, mode = 1, miniProtocolId = 2,
            payload = [0x82, 0x06, 0x83, 0x01, 0x41, 0xAA, 0x02]\<rparr>, Some 1)]),
        [])"
    by (simp add: await_001_def readFrame_def pump_empty resolved_with_def ps_waiter_def)
  show ?thesis
    by (simp only: replies_of_chunks_def await_hs_two await_cs_two PS prod.case)
qed

lemma run_one_chunk:
  "exit_code_001 (run_001 example_cfg cbor_encode cbor_decode tn0
     (replies_of_chunks
        [sdu 1 0 accept_payload @ sdu 1 2 [0x82, 0x06, 0x83, 0x01, 0x41, 0xAA, 0x02]])) = 1"
proof -
  have L: "\<not> 65535 < length (cbor_encode (handshakePropose example_cfg))"
    by (simp add: encode_example_propose)
  show ?thesis
    by (simp add: replies_one_chunk run_001_def write_frame_def L MP_HANDSHAKE_def
          decodeCbor_def decode_accept_payload idx_def after_handshake_001_def cbor_hd_def
          muxFrame_def MP_CHAINSYNC_def Let_def exit_code_001_def)
qed

lemma run_two_chunks:
  "exit_code_001 (run_001 example_cfg cbor_encode cbor_decode tn0
     (replies_of_chunks
        [sdu 1 0 accept_payload, sdu 1 2 [0x82, 0x06, 0x83, 0x01, 0x41, 0xAA, 0x02]])) = 0"
proof -
  have L: "\<not> 65535 < length (cbor_encode (handshakePropose example_cfg))"
    by (simp add: encode_example_propose)
  have E: "\<not> WANT_PEER_SHARING example_cfg"
    by (simp add: example_cfg_def)
  show ?thesis
    by (simp add: replies_two_chunks run_001_def write_frame_def L MP_HANDSHAKE_def
          decodeCbor_def decode_accept_payload idx_def after_handshake_001_def cbor_hd_def
          muxFrame_def MP_CHAINSYNC_def Let_def decode_not_found tip_of_001_def
          peer_sharing_001_def E exit_code_001_def)
qed

text \<open>
  Stated for every way of cutting the bytes into chunks, with nothing said of \<^verbatim>\<open>readFrame\<close>,
  chunk insensitivity fails for the reader of part_001 as \<^verbatim>\<open>run()\<close> drives it. When both
  segments arrive in one chunk, \<^verbatim>\<open>_pump\<close> takes the second from the buffer before \<^verbatim>\<open>run()\<close>
  has called \<^verbatim>\<open>readFrame\<close> for it: no waiter is registered, the segment is dropped, the await
  of line 231 times out and the process exits with status 1. When they arrive in two
  chunks the second segment reaches its waiter and the run succeeds.
\<close>

theorem reader_chunks_counterexample:
  "concat [sdu 1 0 accept_payload @ sdu 1 2 [0x82, 0x06, 0x83, 0x01, 0x41, 0xAA, 0x02]]
     = concat [sdu 1 0 accept_payload, sdu 1 2 [0x82, 0x06, 0x83, 0x01, 0x41, 0xAA, 0x02]] \<and>
   csResp (replies_of_chunks
        [sdu 1 0 accept_payload @ sdu 1 2 [0x82, 0x06, 0x83, 0x01, 0x41, 0xAA, 0x02]])
     = Inl FrameTimeout \<and>
   csResp (replies_of_chunks
        [sdu 1 0 accept_payload, sdu 1 2 [0x82, 0x06, 0x83, 0x01, 0x41, 0xAA, 0x02]])
     = Inr \<lparr>transmissionTime = 0, mode = 1, miniProtocolId = 2,
            payload = [0x82, 0x06, 0x83, 0x01, 0x41, 0xAA, 0x02]\<rparr> \<and>
   exit_code_001 (run_001 example_cfg cbor_encode cbor_decode tn0
     (replies_of_chunks
        [sdu 1 0 accept_payload @ sdu 1 2 [0x82, 0x06, 0x83, 0x01, 0x41, 0xAA, 0x02]])) = 1 \<and>
   exit_code_001 (run_001 example_cfg cbor_encode cbor_decode tn0
     (replies_of_chunks
        [sdu 1 0 accept_payload, sdu 1 2 [0x82, 0x06, 0x83, 0x01, 0x41, 0xAA, 0x02]])) = 0"
  using run_one_chunk run_two_chunks
  by (simp add: replies_one_chunk replies_two_chunks)

end
